theory Spec2Isabelle
  imports Complex_Main "HOL-Library.Word" "HOL-Library.Sublist" "HOL-Library.Log_Nat"
begin

section \<open>JavaScript values used by the normalisation layer of \<^verbatim>\<open>src/App.tsx\<close>\<close>

subsection \<open>Strings\<close>

text \<open>
  A JavaScript string is a sequence of UTF-16 code units. ASCII literals of the source are
  written \<open>js ''...''\<close>; the three non-ASCII literals of the source are given by their code
  units: the two-character sentinel U+4E0D U+660E (rendered "unknown" in the
  specification) and the full-width parentheses U+FF08 and U+FF09 of the codec template.
\<close>

type_synonym jschar = "16 word"
type_synonym jsstring = "jschar list"

definition js :: "string \<Rightarrow> jsstring" where
  "js s = map (\<lambda>c. of_nat (of_char c)) s"

definition unknown :: jsstring where
  "unknown = [0x4E0D, 0x660E]"

definition lparen :: jsstring where
  "lparen = [0xFF08]"

definition rparen :: jsstring where
  "rparen = [0xFF09]"

text \<open>\<^verbatim>\<open>s.includes(p)\<close>: \<open>p\<close> occurs in \<open>s\<close> as a contiguous run of code units.\<close>

fun includes_str :: "jsstring \<Rightarrow> jsstring \<Rightarrow> bool" where
  "includes_str [] p = (p = [])"
| "includes_str (c # cs) p = (prefix p (c # cs) \<or> includes_str cs p)"

text \<open>\<^verbatim>\<open>s.split(sep)\<close> for a separator of one code unit; the result is never the empty array.\<close>

fun split :: "jschar \<Rightarrow> jsstring \<Rightarrow> jsstring list" where
  "split sep [] = [[]]"
| "split sep (c # cs) =
     (if c = sep then [] # split sep cs
      else (case split sep cs of [] \<Rightarrow> [[c]] | p # ps \<Rightarrow> (c # p) # ps))"

text \<open>
  \<^verbatim>\<open>parts[0]\<close> in a string position. An array of strings read out of range gives
  \<^verbatim>\<open>undefined\<close>, which string concatenation renders as the text "undefined".
\<close>

definition elemText :: "jsstring list \<Rightarrow> nat \<Rightarrow> jsstring" where
  "elemText xs i = (if i < length xs then xs ! i else js ''undefined'')"

subsection \<open>Numbers\<close>

text \<open>
  A JavaScript number is \<^verbatim>\<open>NaN\<close>, an infinity or a finite value. Finite values are kept
  as exact rationals: the rounding of IEEE doubles, overflow to infinity and the sign of
  zero are not represented. On integers below \<open>2 ^ 53\<close> and on the divisions the program
  performs on them, doubles compute the same results; the quotient of two logarithms in
  \<^verbatim>\<open>formatBytes\<close>, where they do not, is modelled apart.
\<close>

datatype jsnum = NaN | PosInf | NegInf | Fin rat

definition isNaN :: "jsnum \<Rightarrow> bool" where
  "isNaN x = (x = NaN)"

text \<open>Comparison of a number with a finite constant; every comparison with \<^verbatim>\<open>NaN\<close> is false.\<close>

fun js_lt :: "jsnum \<Rightarrow> rat \<Rightarrow> bool" where
  "js_lt (Fin a) c = (a < c)"
| "js_lt NegInf c = True"
| "js_lt PosInf c = False"
| "js_lt NaN c = False"

fun js_le :: "jsnum \<Rightarrow> rat \<Rightarrow> bool" where
  "js_le (Fin a) c = (a \<le> c)"
| "js_le NegInf c = True"
| "js_le PosInf c = False"
| "js_le NaN c = False"

fun js_gt :: "jsnum \<Rightarrow> rat \<Rightarrow> bool" where
  "js_gt (Fin a) c = (a > c)"
| "js_gt PosInf c = True"
| "js_gt NegInf c = False"
| "js_gt NaN c = False"

fun js_ge :: "jsnum \<Rightarrow> rat \<Rightarrow> bool" where
  "js_ge (Fin a) c = (a \<ge> c)"
| "js_ge PosInf c = True"
| "js_ge NegInf c = False"
| "js_ge NaN c = False"

text \<open>\<^verbatim>\<open>x / c\<close> and \<^verbatim>\<open>x % c\<close> for a positive finite constant \<open>c\<close>, the only divisors of the program.\<close>

fun js_div :: "jsnum \<Rightarrow> rat \<Rightarrow> jsnum" where
  "js_div (Fin a) c = Fin (a / c)"
| "js_div PosInf c = PosInf"
| "js_div NegInf c = NegInf"
| "js_div NaN c = NaN"

fun js_rem :: "jsnum \<Rightarrow> rat \<Rightarrow> jsnum" where
  "js_rem (Fin a) c =
     Fin (a - c * of_int (if a \<ge> 0 then \<lfloor>a / c\<rfloor> else \<lceil>a / c\<rceil>))"
| "js_rem PosInf c = NaN"
| "js_rem NegInf c = NaN"
| "js_rem NaN c = NaN"

fun js_floor :: "jsnum \<Rightarrow> jsnum" where
  "js_floor (Fin a) = Fin (of_int \<lfloor>a\<rfloor>)"
| "js_floor PosInf = PosInf"
| "js_floor NegInf = NegInf"
| "js_floor NaN = NaN"

text \<open>\<^verbatim>\<open>Math.max(a, b)\<close> and \<^verbatim>\<open>Math.max(...xs)\<close>, which starts from minus infinity.\<close>

fun js_max :: "jsnum \<Rightarrow> jsnum \<Rightarrow> jsnum" where
  "js_max NaN y = NaN"
| "js_max x NaN = NaN"
| "js_max PosInf y = PosInf"
| "js_max x PosInf = PosInf"
| "js_max NegInf y = y"
| "js_max x NegInf = x"
| "js_max (Fin a) (Fin b) = Fin (max a b)"

definition js_max_list :: "jsnum list \<Rightarrow> jsnum" where
  "js_max_list xs = foldl js_max NegInf xs"

text \<open>Truthiness of a number: \<^verbatim>\<open>0\<close> and \<^verbatim>\<open>NaN\<close> are falsy.\<close>

definition truthyN :: "jsnum \<Rightarrow> bool" where
  "truthyN x = (x \<noteq> NaN \<and> x \<noteq> Fin 0)"

subsection \<open>Decimal digits\<close>

definition digitChar :: "nat \<Rightarrow> jschar" where
  "digitChar d = of_nat (48 + d)"

definition isDigit :: "jschar \<Rightarrow> bool" where
  "isDigit c = (0x30 \<le> c \<and> c \<le> 0x39)"

definition digitVal :: "jschar \<Rightarrow> nat" where
  "digitVal c = unat c - 48"

fun digits :: "nat \<Rightarrow> jsstring" where
  "digits n = (if n < 10 then [digitChar n] else digits (n div 10) @ [digitChar (n mod 10)])"

definition decimalValue :: "jsstring \<Rightarrow> nat" where
  "decimalValue ds = foldl (\<lambda>acc c. 10 * acc + digitVal c) 0 ds"

subsection \<open>Number to string\<close>

text \<open>
  \<^verbatim>\<open>String(x)\<close>, also what a template literal and string concatenation apply to a number.
  An integer prints as its decimal digits and a decimal fraction prints its digits after
  the point. ECMAScript switches to exponent notation from \<open>10 ^ 21\<close> on and below
  \<open>10 ^ - 6\<close>, and prints the shortest digits that read back as the same double; both
  are outside this rendering, which stops after 20 fractional digits.
\<close>

fun fracDigits :: "nat \<Rightarrow> rat \<Rightarrow> jsstring" where
  "fracDigits k f =
     (if k = 0 \<or> f = 0 then []
      else digitChar (nat \<lfloor>10 * f\<rfloor>) # fracDigits (k - 1) (10 * f - of_int \<lfloor>10 * f\<rfloor>))"

definition numToString :: "jsnum \<Rightarrow> jsstring" where
  "numToString x =
     (case x of
        NaN \<Rightarrow> js ''NaN''
      | PosInf \<Rightarrow> js ''Infinity''
      | NegInf \<Rightarrow> js ''-Infinity''
      | Fin q \<Rightarrow>
          (let a = \<bar>q\<bar>; ip = \<lfloor>a\<rfloor>; f = a - of_int ip
           in (if q < 0 then js ''-'' else []) @ digits (nat ip) @
              (if f = 0 then [] else js ''.'' @ fracDigits 20 f)))"

text \<open>
  \<^verbatim>\<open>x.toFixed(f)\<close>: the integer \<open>n\<close> nearest to \<open>x * 10 ^ f\<close> (the larger one on a tie),
  printed with \<open>f\<close> digits after the point; a number that is not finite, or is at least
  \<open>10 ^ 21\<close>, prints as \<^verbatim>\<open>String(x)\<close>.
\<close>

definition toFixed :: "nat \<Rightarrow> jsnum \<Rightarrow> jsstring" where
  "toFixed f x =
     (case x of
        Fin q \<Rightarrow>
          (let a = \<bar>q\<bar> in
           if a \<ge> 10 ^ 21 then numToString x
           else
             (let n = nat \<lfloor>a * 10 ^ f + 1 / 2\<rfloor>;
                  m = digits n;
                  m' = (if f = 0 then m
                        else (let z = replicate (f + 1 - length m) (digitChar 0) @ m
                              in take (length z - f) z @ js ''.'' @ drop (length z - f) z))
              in (if q < 0 then js ''-'' else []) @ m'))
      | _ \<Rightarrow> numToString x)"

subsection \<open>String to number\<close>

text \<open>White space and line terminators that \<^verbatim>\<open>parseFloat\<close> and \<^verbatim>\<open>parseInt\<close> skip.\<close>

definition isWhiteSpace :: "jschar \<Rightarrow> bool" where
  "isWhiteSpace c =
     (c \<in> set [0x9, 0xA, 0xB, 0xC, 0xD, 0x20, 0xA0, 0x1680, 0x2028, 0x2029, 0x202F, 0x205F,
               0x3000, 0xFEFF]
      \<or> (0x2000 \<le> c \<and> c \<le> 0x200A))"

text \<open>An optional sign: whether it is a minus, and the rest.\<close>

definition signPart :: "jsstring \<Rightarrow> bool \<times> jsstring" where
  "signPart t =
     (case t of
        [] \<Rightarrow> (False, t)
      | c # r \<Rightarrow> if c = 0x2D then (True, r) else if c = 0x2B then (False, r) else (False, t))"

text \<open>The exponent part \<^verbatim>\<open>e\<close>, \<^verbatim>\<open>E\<close> with a signed integer; absent or ill-formed, it is no part of the literal.\<close>

definition exponentPart :: "jsstring \<Rightarrow> int" where
  "exponentPart r =
     (case r of
        [] \<Rightarrow> 0
      | c # r1 \<Rightarrow>
          if c = 0x65 \<or> c = 0x45 then
            (case r1 of
               [] \<Rightarrow> 0
             | d # r2 \<Rightarrow>
                 if d = 0x2D then - int (decimalValue (takeWhile isDigit r2))
                 else if d = 0x2B then int (decimalValue (takeWhile isDigit r2))
                 else int (decimalValue (takeWhile isDigit r1)))
          else 0)"

text \<open>
  \<^verbatim>\<open>parseFloat(s)\<close>: the longest prefix of the trimmed string that is a decimal literal
  (\<^verbatim>\<open>Infinity\<close>, digits with an optional fraction and exponent, each optionally signed);
  \<^verbatim>\<open>NaN\<close> when there is none.
\<close>

definition parseFloat :: "jsstring \<Rightarrow> jsnum" where
  "parseFloat s =
     (let (neg, u) = signPart (dropWhile isWhiteSpace s)
      in if prefix (js ''Infinity'') u then (if neg then NegInf else PosInf)
         else
           (let ip = takeWhile isDigit u;
                r1 = dropWhile isDigit u;
                hasDot = (case r1 of [] \<Rightarrow> False | c # _ \<Rightarrow> c = 0x2E);
                fp = (if hasDot then takeWhile isDigit (tl r1) else []);
                r2 = (if hasDot then dropWhile isDigit (tl r1) else r1)
            in if ip = [] \<and> fp = [] then NaN
               else
                 (let m = of_nat (decimalValue (ip @ fp)) / 10 ^ length fp;
                      e = exponentPart r2;
                      v = (if e \<ge> 0 then m * 10 ^ nat e else m / 10 ^ nat (- e))
                  in Fin (if neg then - v else v))))"

text \<open>\<^verbatim>\<open>parseInt(s)\<close> without a radix: decimal, or hexadecimal after \<^verbatim>\<open>0x\<close> or \<^verbatim>\<open>0X\<close>.\<close>

definition radixDigit :: "nat \<Rightarrow> jschar \<Rightarrow> nat option" where
  "radixDigit radix c =
     (let v = (if 0x30 \<le> c \<and> c \<le> 0x39 then Some (unat c - 48)
               else if 0x61 \<le> c \<and> c \<le> 0x7A then Some (unat c - 87)
               else if 0x41 \<le> c \<and> c \<le> 0x5A then Some (unat c - 55)
               else None)
      in case v of None \<Rightarrow> None | Some d \<Rightarrow> if d < radix then Some d else None)"

definition radixValue :: "nat \<Rightarrow> jsstring \<Rightarrow> nat" where
  "radixValue radix ds =
     foldl (\<lambda>acc c. radix * acc + (case radixDigit radix c of None \<Rightarrow> 0 | Some d \<Rightarrow> d)) 0 ds"

definition parseInt :: "jsstring \<Rightarrow> jsnum" where
  "parseInt s =
     (let (neg, u) = signPart (dropWhile isWhiteSpace s);
          hex = (prefix (js ''0x'') u \<or> prefix (js ''0X'') u);
          radix = (if hex then 16 else 10);
          ds = takeWhile (\<lambda>c. radixDigit radix c \<noteq> None) (if hex then drop 2 u else u)
      in if ds = [] then NaN
         else Fin (if neg then - of_nat (radixValue radix ds) else of_nat (radixValue radix ds)))"

subsection \<open>Field values\<close>

text \<open>
  A field of a track that carries a quantity arrives as a string or as a number; an absent
  field reads as \<^verbatim>\<open>undefined\<close>, here \<open>None\<close>.
\<close>

datatype jsval = JStr jsstring | JNum jsnum

definition toStr :: "jsval \<Rightarrow> jsstring" where
  "toStr v = (case v of JStr s \<Rightarrow> s | JNum x \<Rightarrow> numToString x)"

definition truthyV :: "jsval \<Rightarrow> bool" where
  "truthyV v = (case v of JStr s \<Rightarrow> s \<noteq> [] | JNum x \<Rightarrow> truthyN x)"

text \<open>\<^verbatim>\<open>a || b\<close> on optional values: the left operand when it is truthy, else the right one.\<close>

definition orV :: "jsval option \<Rightarrow> jsval option \<Rightarrow> jsval option" where
  "orV a b = (case a of Some v \<Rightarrow> if truthyV v then a else b | None \<Rightarrow> b)"

definition orS :: "jsstring option \<Rightarrow> jsstring option \<Rightarrow> jsstring option" where
  "orS a b = (case a of Some s \<Rightarrow> if s \<noteq> [] then a else b | None \<Rightarrow> b)"

text \<open>\<^verbatim>\<open>a || 'literal'\<close>: the right operand is a string, so the result is one.\<close>

definition orElse :: "jsstring option \<Rightarrow> jsstring \<Rightarrow> jsstring" where
  "orElse a d = (case a of Some s \<Rightarrow> if s \<noteq> [] then s else d | None \<Rightarrow> d)"

text \<open>
  \<^verbatim>\<open>parseFloat(v)\<close> and \<^verbatim>\<open>parseInt(v)\<close> convert their argument to a string first;
  \<^verbatim>\<open>undefined\<close> becomes the text "undefined", which parses to \<^verbatim>\<open>NaN\<close>. Parsing back the
  text of a number gives the number itself (ECMAScript prints digits that read back as the
  same value), which \<open>parseFloatV\<close> uses directly.
\<close>

definition parseFloatV :: "jsval option \<Rightarrow> jsnum" where
  "parseFloatV v =
     (case v of None \<Rightarrow> parseFloat (js ''undefined'') | Some (JStr s) \<Rightarrow> parseFloat s | Some (JNum x) \<Rightarrow> x)"

definition parseIntV :: "jsval option \<Rightarrow> jsnum" where
  "parseIntV v =
     (case v of None \<Rightarrow> parseInt (js ''undefined'') | Some w \<Rightarrow> parseInt (toStr w))"


section \<open>The data of \<^verbatim>\<open>src/App.tsx\<close>\<close>

text \<open>
  A track of the probing engine's result: the \<^verbatim>\<open>@type\<close> discriminator and the fields
  the program reads. Textual fields are strings; fields that carry a quantity are strings
  or numbers; every field but the discriminator may be absent.
\<close>

record track =
  at_type :: jsstring
  Format :: "jsstring option"
  Format_Information :: "jsstring option"
  Format_Profile :: "jsstring option"
  CodecID :: "jsstring option"
  Duration :: "jsval option"
  Duration_String3 :: "jsstring option"
  Width :: "jsval option"
  Height :: "jsval option"
  BitRate :: "jsval option"
  BitRate_Mode :: "jsstring option"
  OverallBitRate :: "jsval option"
  OverallBitRate_Mode :: "jsstring option"
  FrameRate :: "jsval option"
  FrameRate_Nominal :: "jsval option"

text \<open>\<^verbatim>\<open>result.media?.track\<close>: the track sequence, absent when the result has no \<^verbatim>\<open>media\<close>.\<close>

type_synonym probe = "track list option"

text \<open>The awaited \<^verbatim>\<open>analyzeData\<close> call either returns a result or throws with a message.\<close>

datatype 'a outcome = Returned 'a | Threw jsstring

text \<open>The \<^verbatim>\<open>File\<close> being analysed.\<close>

record js_file =
  file_name :: jsstring
  file_lastModified :: int
  file_size :: nat

text \<open>The interface \<^verbatim>\<open>VideoMetadata\<close>; the field \<^verbatim>\<open>size\<close> is \<open>size_md\<close> here.\<close>

record VideoMetadata =
  name :: jsstring
  updatedDate :: jsstring
  size_md :: jsstring
  resolution :: jsstring
  resolutionLabel :: jsstring
  bitRate :: jsstring
  bitRateMode :: jsstring
  frameRate :: jsstring
  duration :: jsstring
  container :: jsstring
  videoCodec :: jsstring
  audioCodec :: jsstring

text \<open>
  What \<^verbatim>\<open>analyzeVideo\<close> leaves in the error state: the message of the \<^verbatim>\<open>else\<close> branch
  (no usable track) or the message of the \<^verbatim>\<open>catch\<close> block with the thrown text.
\<close>

datatype failure = NoMediaTrack | ProbeFailure jsstring

section \<open>The functions of \<^verbatim>\<open>src/App.tsx\<close>\<close>

subsection \<open>\<^verbatim>\<open>formatBytes\<close>\<close>

text \<open>
  \<^verbatim>\<open>Math.floor(Math.log(n) / Math.log(k))\<close> for a byte count \<open>n > 0\<close> below \<open>2 ^ 53\<close> and
  \<open>k = 1024\<close>, as IEEE doubles compute it. The quotient of the two logarithms floors to
  the exact logarithm (one less than the number of base-\<open>k\<close> digits of \<open>n\<close>) at every such
  \<open>n\<close> but the three integers below \<open>1024 ^ 5\<close>: the double nearest to their logarithm
  is the double nearest to the logarithm of \<open>1024 ^ 5\<close>, and the quotient is 5.
\<close>

definition floor_log :: "nat \<Rightarrow> nat \<Rightarrow> nat" where
  "floor_log k n =
     (if k = 1024 \<and> 1024 ^ 5 - 3 \<le> n \<and> n < 1024 ^ 5 then 5 else floorlog k n - 1)"

definition sizes :: "jsstring list" where
  "sizes = [js ''Bytes'', js ''KB'', js ''MB'', js ''GB'', js ''TB'']"

definition formatBytes :: "nat \<Rightarrow> int \<Rightarrow> jsstring" where
  "formatBytes bytes decimals =
     (if bytes = 0 then js ''0 Bytes''
      else
        (let k = 1024;
             dm = (if decimals < 0 then 0 else nat decimals);
             i = floor_log k bytes
         in numToString (parseFloat (toFixed dm (js_div (Fin (of_nat bytes)) (of_nat (k ^ i)))))
            @ js '' '' @ elemText sizes i))"

subsection \<open>\<^verbatim>\<open>formatDuration\<close>\<close>

definition formatDuration :: "jsval \<Rightarrow> jsstring option \<Rightarrow> jsstring" where
  "formatDuration v durationStr3 =
     (case (case durationStr3 of
              None \<Rightarrow> None
            | Some d \<Rightarrow> if d \<noteq> [] \<and> includes_str d (js '':'') then Some d else None) of
        Some d \<Rightarrow> elemText (split 0x2E d) 0
      | None \<Rightarrow>
          if \<not> truthyV v then unknown
          else
            (let num = parseFloatV (Some v)
             in if isNaN num \<or> js_le num 0 then unknown
                else
                  (let totalSeconds0 = js_floor (js_div num 1000);
                       totalSeconds =
                         (if totalSeconds0 = Fin 0 \<and> js_gt num 0 then js_floor num
                          else totalSeconds0);
                       seconds = js_rem totalSeconds 60;
                       minutes = js_floor (js_rem (js_div totalSeconds 60) 60);
                       hours = js_floor (js_div totalSeconds 3600);
                       h = (if js_gt hours 0 then numToString hours @ js '':'' else []);
                       m = (if js_gt hours 0
                            then (if js_lt minutes 10 then js ''0'' @ numToString minutes @ js '':''
                                  else numToString minutes @ js '':'')
                            else numToString minutes @ js '':'');
                       s = (if js_lt seconds 10 then js ''0'' @ numToString seconds
                            else numToString seconds)
                   in h @ m @ s)))"

subsection \<open>\<^verbatim>\<open>getResolutionLabel\<close>\<close>

definition getResolutionLabel :: "jsnum \<Rightarrow> jsnum \<Rightarrow> jsstring" where
  "getResolutionLabel width height =
     (let mx = js_max width height
      in if js_ge mx 3840 then js ''4K''
         else if js_ge mx 2560 then js ''2K''
         else if js_ge mx 1920 then js ''FullHD''
         else if js_ge mx 1280 then js ''HD''
         else js ''SD'')"

subsection \<open>\<^verbatim>\<open>getDetailedCodec\<close>\<close>

definition getDetailedCodec :: "track option \<Rightarrow> jsstring" where
  "getDetailedCodec tr =
     (case tr of
        None \<Rightarrow> unknown
      | Some t \<Rightarrow>
          (let format = orElse (Format t) [];
               info = orElse (Format_Information t) [];
               profile = orElse (Format_Profile t) [];
               isoName0 = (if info \<noteq> [] then info else format);
               ituName0 = format;
               (isoName1, ituName1) =
                 (if format = js ''AVC'' then (js ''Advanced Video Coding'', js ''H.264'')
                  else if format = js ''HEVC'' then (js ''High Efficiency Video Coding'', js ''H.265'')
                  else if format = js ''MPEG-4 Visual'' then (js ''MPEG-4 Part 2'', js ''Visual'')
                  else (isoName0, ituName0));
               (isoName, ituName) =
                 (if format = js ''AAC'' then (js ''Advanced Audio Coding'', js ''MPEG-4 AAC'')
                  else (isoName1, ituName1));
               result0 =
                 (if ituName \<noteq> [] \<and> ituName \<noteq> isoName then isoName @ lparen @ ituName @ rparen
                  else isoName);
               result =
                 (if profile \<noteq> [] \<and> profile \<noteq> js ''Base'' \<and> profile \<noteq> js ''Main''
                     \<and> \<not> includes_str result0 profile
                  then result0 @ js '' ['' @ profile @ js '']''
                  else result0)
           in if result \<noteq> [] then result else orElse (CodecID t) unknown))"

subsection \<open>\<^verbatim>\<open>analyzeVideo\<close>\<close>

text \<open>\<^verbatim>\<open>t?.f\<close> on an optional track.\<close>

definition field :: "track option \<Rightarrow> (track \<Rightarrow> 'a option) \<Rightarrow> 'a option" where
  "field t f = (case t of None \<Rightarrow> None | Some x \<Rightarrow> f x)"

text \<open>\<^verbatim>\<open>result.media?.track.find((t) => t['@type'] === ty)\<close>.\<close>

definition findTrack :: "probe \<Rightarrow> jsstring \<Rightarrow> track option" where
  "findTrack result ty =
     (case result of None \<Rightarrow> None | Some ts \<Rightarrow> find (\<lambda>t. at_type t = ty) ts)"

text \<open>
  \<^verbatim>\<open>result.media?.track.map((t) => parseFloat(t.Duration)).filter((d) => !isNaN(d) && d > 0)\<close>;
  it is read only where a General or a Video track was found, so that \<^verbatim>\<open>media\<close> is present.
\<close>

definition durationsOf :: "probe \<Rightarrow> jsnum list" where
  "durationsOf result =
     (case result of
        None \<Rightarrow> []
      | Some ts \<Rightarrow> filter (\<lambda>d. \<not> isNaN d \<and> js_gt d 0) (map (\<lambda>t. parseFloatV (Duration t)) ts))"

definition bitRateText :: "jsval option \<Rightarrow> jsstring" where
  "bitRateText b = toFixed 2 (js_div (parseIntV b) 1000000) @ js '' Mbps''"

text \<open>
  The body of \<^verbatim>\<open>analyzeVideo\<close> from the awaited probing result on. The date text comes
  from \<^verbatim>\<open>new Date(file.lastModified).toLocaleString('ja-JP')\<close>, a formatter of the runtime
  that depends on its time zone; it is the parameter \<open>toLocaleString\<close>. The outcome is
  the metadata that is set, or the failure that the error state reports.
\<close>

definition analyzeVideo ::
    "(int \<Rightarrow> jsstring) \<Rightarrow> js_file \<Rightarrow> probe outcome \<Rightarrow> failure + VideoMetadata" where
  "analyzeVideo toLocaleString f awaited =
     (case awaited of
        Threw msg \<Rightarrow> Inl (ProbeFailure msg)
      | Returned result \<Rightarrow>
          (let general = findTrack result (js ''General'');
               video = findTrack result (js ''Video'');
               audio = findTrack result (js ''Audio'')
           in if video \<noteq> None \<or> general \<noteq> None then
                (let width = (case video of Some v \<Rightarrow> parseIntV (Width v) | None \<Rightarrow> Fin 0);
                     height = (case video of Some v \<Rightarrow> parseIntV (Height v) | None \<Rightarrow> Fin 0);
                     ds3 = orS (orS (field general Duration_String3) (field video Duration_String3))
                               (field audio Duration_String3);
                     durations = durationsOf result;
                     rawDuration =
                       (case orV (orV (field general Duration) (field video Duration))
                                 (field audio Duration) of
                          Some d \<Rightarrow> if truthyV d then d
                                    else JNum (if length durations > 0 then js_max_list durations else Fin 0)
                        | None \<Rightarrow> JNum (if length durations > 0 then js_max_list durations else Fin 0))
                 in Inr \<lparr>
                      name = file_name f,
                      updatedDate = toLocaleString (file_lastModified f),
                      size_md = formatBytes (file_size f) 2,
                      resolution =
                        (if truthyN width \<and> truthyN height
                         then numToString width @ js '' x '' @ numToString height else unknown),
                      resolutionLabel =
                        (if truthyN width \<and> truthyN height
                         then getResolutionLabel width height else unknown),
                      bitRate =
                        (case orV (field video BitRate) None of
                           Some b \<Rightarrow> bitRateText (Some b)
                         | None \<Rightarrow>
                             (case orV (field general OverallBitRate) None of
                                Some b \<Rightarrow> bitRateText (Some b)
                              | None \<Rightarrow> unknown)),
                      bitRateMode =
                        orElse (orS (field video BitRate_Mode) (field general OverallBitRate_Mode))
                               unknown,
                      frameRate =
                        (case video of
                           Some v \<Rightarrow>
                             (case FrameRate v of
                                Some r \<Rightarrow> toStr r
                              | None \<Rightarrow>
                                  (case FrameRate_Nominal v of Some r \<Rightarrow> toStr r | None \<Rightarrow> unknown))
                             @ js '' fps''
                         | None \<Rightarrow> unknown),
                      duration = formatDuration rawDuration ds3,
                      container = orElse (field general Format) unknown,
                      videoCodec = getDetailedCodec video,
                      audioCodec = getDetailedCodec audio
                    \<rparr>)
              else Inl NoMediaTrack))"

section \<open>Notions of the specification and sample inputs\<close>

text \<open>The probe's track sequence; a result without \<^verbatim>\<open>media\<close> has no tracks.\<close>

definition tracksOf :: "probe \<Rightarrow> track list" where
  "tracksOf result = (case result of None \<Rightarrow> [] | Some ts \<Rightarrow> ts)"

text \<open>A track of the given type with every field absent, a file and a date formatter.\<close>

definition emptyTrack :: "jsstring \<Rightarrow> track" where
  "emptyTrack ty =
     \<lparr>at_type = ty, Format = None, Format_Information = None, Format_Profile = None,
      CodecID = None, Duration = None, Duration_String3 = None, Width = None, Height = None,
      BitRate = None, BitRate_Mode = None, OverallBitRate = None, OverallBitRate_Mode = None,
      FrameRate = None, FrameRate_Nominal = None\<rparr>"

definition someFile :: js_file where
  "someFile = \<lparr>file_name = js ''clip.mp4'', file_lastModified = 0, file_size = 1536\<rparr>"

definition someDate :: "int \<Rightarrow> jsstring" where
  "someDate ms = js ''1970/1/1 9:00:00''"

text \<open>
  The codec lookup table of the specification: a short format code with its pair of
  canonical names, the long one first.
\<close>

definition codecTable :: "(jsstring \<times> jsstring \<times> jsstring) list" where
  "codecTable =
     [(js ''AVC'', js ''Advanced Video Coding'', js ''H.264''),
      (js ''HEVC'', js ''High Efficiency Video Coding'', js ''H.265''),
      (js ''MPEG-4 Visual'', js ''MPEG-4 Part 2'', js ''Visual''),
      (js ''AAC'', js ''Advanced Audio Coding'', js ''MPEG-4 AAC'')]"

text \<open>
  The default name of a track, the format information or else the format code, and the
  two names of a track as the specification gives them: the table's pair for a code of the
  table, the default name as both for a code outside the table.
\<close>

definition defaultName :: "track \<Rightarrow> jsstring" where
  "defaultName t =
     (let format = orElse (Format t) []; info = orElse (Format_Information t) []
      in if info \<noteq> [] then info else format)"

definition specNames :: "track \<Rightarrow> jsstring \<times> jsstring" where
  "specNames t =
     (case map_of codecTable (orElse (Format t) []) of
        Some names \<Rightarrow> names
      | None \<Rightarrow> (defaultName t, defaultName t))"

text \<open>
  The two names of a track in the amended reading. A code of the table has the table's
  pair. Outside the table the long name is the default name, and the short name is the
  format code, or the default name again when the track has no format code.
\<close>

definition codecNames :: "track \<Rightarrow> jsstring \<times> jsstring" where
  "codecNames t =
     (let format = orElse (Format t) []; info = orElse (Format_Information t) [];
          long = (if info \<noteq> [] then info else format)
      in case map_of codecTable format of
           Some names \<Rightarrow> names
         | None \<Rightarrow> (long, if format \<noteq> [] then format else long))"

text \<open>
  The composed name: the long name alone when the two names coincide, else the long name
  with the short name in full-width parentheses.
\<close>

definition composedName :: "jsstring \<Rightarrow> jsstring \<Rightarrow> jsstring" where
  "composedName long short = (if short \<noteq> long then long @ lparen @ short @ rparen else long)"

text \<open>
  The profile is shown when it is present, is neither \<^verbatim>\<open>Base\<close> nor \<^verbatim>\<open>Main\<close> and does
  not occur in the composed name already.
\<close>

definition profileShown :: "track \<Rightarrow> jsstring \<Rightarrow> bool" where
  "profileShown t composed =
     (let p = orElse (Format_Profile t) []
      in p \<noteq> [] \<and> p \<noteq> js ''Base'' \<and> p \<noteq> js ''Main'' \<and> \<not> sublist p composed)"

definition displayName :: "track \<Rightarrow> jsstring" where
  "displayName t =
     (let composed = composedName (fst (codecNames t)) (snd (codecNames t))
      in if profileShown t composed
         then composed @ js '' ['' @ orElse (Format_Profile t) [] @ js '']'' else composed)"

text \<open>Sample tracks for the codec resolver.\<close>

definition avcHigh :: track where
  "avcHigh =
     (emptyTrack (js ''Video''))\<lparr>Format := Some (js ''AVC''), Format_Profile := Some (js ''High'')\<rparr>"

definition avcMain :: track where
  "avcMain =
     (emptyTrack (js ''Video''))\<lparr>Format := Some (js ''AVC''), Format_Profile := Some (js ''Main'')\<rparr>"

definition infoOnly :: track where
  "infoOnly = (emptyTrack (js ''Audio''))\<lparr>Format_Information := Some (js ''Dolby Digital'')\<rparr>"

definition vp9Track :: track where
  "vp9Track =
     (emptyTrack (js ''Video''))\<lparr>Format := Some (js ''VP9''), CodecID := Some (js ''V_VP9'')\<rparr>"

definition codecIdOnly :: track where
  "codecIdOnly = (emptyTrack (js ''Video''))\<lparr>CodecID := Some (js ''V_VP9'')\<rparr>"

text \<open>A Video track that carries only a width and a height, both as strings.\<close>

definition videoWH :: "jsstring \<Rightarrow> jsstring \<Rightarrow> track" where
  "videoWH w h = (emptyTrack (js ''Video''))\<lparr>Width := Some (JStr w), Height := Some (JStr h)\<rparr>"

text \<open>The resolution class of a long edge, highest threshold first.\<close>

definition sizeClass :: "rat \<Rightarrow> jsstring" where
  "sizeClass longEdge =
     (if longEdge \<ge> 3840 then js ''4K''
      else if longEdge \<ge> 2560 then js ''2K''
      else if longEdge \<ge> 1920 then js ''FullHD''
      else if longEdge \<ge> 1280 then js ''HD''
      else js ''SD'')"

text \<open>
  The scaled size rounded to hundredths (the larger one on a tie), as a count of
  hundredths, and the shortest text of that many hundredths: the integer part, then at
  most two decimals with no trailing zero.
\<close>

definition roundHundredths :: "rat \<Rightarrow> nat" where
  "roundHundredths x = nat \<lfloor>x * 100 + 1 / 2\<rfloor>"

definition shortestHundredths :: "nat \<Rightarrow> jsstring" where
  "shortestHundredths n =
     digits (n div 100) @
     (if n mod 100 = 0 then []
      else js ''.'' @ [digitChar (n div 10 mod 10)] @
           (if n mod 10 = 0 then [] else [digitChar (n mod 10)]))"

text \<open>
  The preformatted duration is usable when it is present, not empty and contains a colon.
\<close>

definition usableStr3 :: "jsstring option \<Rightarrow> bool" where
  "usableStr3 ds3 = (case ds3 of None \<Rightarrow> False | Some d \<Rightarrow> d \<noteq> [] \<and> 0x3A \<in> set d)"

text \<open>
  The whole seconds of a positive raw value: milliseconds, unless that is less than one
  second, and then seconds. The clock text of a number of seconds: \<open>H:MM:SS\<close> with hours,
  else \<open>M:SS\<close>.
\<close>

definition totalSecondsOf :: "rat \<Rightarrow> nat" where
  "totalSecondsOf q = (if \<lfloor>q / 1000\<rfloor> = 0 then nat \<lfloor>q\<rfloor> else nat \<lfloor>q / 1000\<rfloor>)"

definition pad2 :: "nat \<Rightarrow> jsstring" where
  "pad2 k = (if k < 10 then js ''0'' @ digits k else digits k)"

definition clock :: "nat \<Rightarrow> jsstring" where
  "clock t =
     (if 0 < t div 3600 then digits (t div 3600) @ js '':'' @ pad2 (t div 60 mod 60) @ js '':''
      else digits (t div 60 mod 60) @ js '':'')
     @ pad2 (t mod 60)"

text \<open>
  The first value of a priority list that is present and truthy: a non-empty string, or a
  number other than 0 and \<^verbatim>\<open>NaN\<close>.
\<close>

fun firstTruthyS :: "jsstring option list \<Rightarrow> jsstring option" where
  "firstTruthyS [] = None"
| "firstTruthyS (None # xs) = firstTruthyS xs"
| "firstTruthyS (Some d # xs) = (if d \<noteq> [] then Some d else firstTruthyS xs)"

fun firstTruthyV :: "jsval option list \<Rightarrow> jsval option" where
  "firstTruthyV [] = None"
| "firstTruthyV (None # xs) = firstTruthyV xs"
| "firstTruthyV (Some v # xs) = (if truthyV v then Some v else firstTruthyV xs)"

text \<open>The order of numbers; \<^verbatim>\<open>NaN\<close> is comparable to nothing.\<close>

fun num_le :: "jsnum \<Rightarrow> jsnum \<Rightarrow> bool" where
  "num_le NaN y = False"
| "num_le x NaN = False"
| "num_le NegInf y = True"
| "num_le x PosInf = True"
| "num_le PosInf y = False"
| "num_le x NegInf = False"
| "num_le (Fin a) (Fin b) = (a \<le> b)"

text \<open>A General track with a preformatted and a raw duration, as the only track.\<close>

definition generalDuration :: "jsstring \<Rightarrow> jsstring \<Rightarrow> track" where
  "generalDuration d3 d =
     (emptyTrack (js ''General''))\<lparr>Duration := Some (JStr d), Duration_String3 := Some d3\<rparr>"

text \<open>Every field of the record is a non-empty string.\<close>

definition allFieldsNonEmpty :: "VideoMetadata \<Rightarrow> bool" where
  "allFieldsNonEmpty r =
     (name r \<noteq> [] \<and> updatedDate r \<noteq> [] \<and> size_md r \<noteq> [] \<and> resolution r \<noteq> []
      \<and> resolutionLabel r \<noteq> [] \<and> bitRate r \<noteq> [] \<and> bitRateMode r \<noteq> [] \<and> frameRate r \<noteq> []
      \<and> duration r \<noteq> [] \<and> container r \<noteq> [] \<and> videoCodec r \<noteq> [] \<and> audioCodec r \<noteq> [])"

text \<open>
  A file without a name, and a General track whose only field is a preformatted duration
  that contains a colon and begins with a full stop.
\<close>

definition namelessFile :: js_file where
  "namelessFile = \<lparr>file_name = [], file_lastModified = 0, file_size = 1536\<rparr>"

definition dotTrack :: track where
  "dotTrack = (emptyTrack (js ''General''))\<lparr>Duration_String3 := Some (js ''.:'')\<rparr>"

text \<open>The exact logarithm \<open>\<lfloor>log k n\<rfloor>\<close> of the specification's unit index.\<close>

definition exactLog :: "nat \<Rightarrow> nat \<Rightarrow> nat" where
  "exactLog k n = floorlog k n - 1"

text \<open>An Audio track with a format code outside the table and a format information.\<close>

definition ac3Track :: track where
  "ac3Track = (emptyTrack (js ''Audio''))
     \<lparr>Format := Some (js ''AC-3''), Format_Information := Some (js ''Audio Coding 3'')\<rparr>"

text \<open>A Video track whose only field is a preformatted duration.\<close>

definition videoStr3 :: "jsstring \<Rightarrow> track" where
  "videoStr3 d3 = (emptyTrack (js ''Video''))\<lparr>Duration_String3 := Some d3\<rparr>"

declare digits.simps [simp del]
declare fracDigits.simps [simp del]


section \<open>Track selection and the outcome of \<^verbatim>\<open>analyzeVideo\<close>\<close>

lemma findTrack_None_iff:
  "findTrack result ty = None \<longleftrightarrow> (\<forall>t \<in> set (tracksOf result). at_type t \<noteq> ty)"
  by (cases result) (auto simp: findTrack_def tracksOf_def find_None_iff)

lemma findTrack_first:
  "findTrack result ty = Some v \<longleftrightarrow>
     (\<exists>i < length (tracksOf result). tracksOf result ! i = v \<and> at_type v = ty \<and>
        (\<forall>j < i. at_type (tracksOf result ! j) \<noteq> ty))"
  by (cases result) (auto simp: findTrack_def tracksOf_def find_Some_iff)

lemma analyzeVideo_Inl_iff:
  "analyzeVideo fmt f (Returned result) = Inl e \<longleftrightarrow>
     e = NoMediaTrack \<and> findTrack result (js ''Video'') = None
       \<and> findTrack result (js ''General'') = None"
  by (auto simp: analyzeVideo_def Let_def)

lemma analyzeVideo_Inr_ex:
  "findTrack result (js ''Video'') \<noteq> None \<or> findTrack result (js ''General'') \<noteq> None \<Longrightarrow>
     \<exists>r. analyzeVideo fmt f (Returned result) = Inr r"
  by (simp add: analyzeVideo_def Let_def)

lemma analyzeVideo_Inr_found:
  "analyzeVideo fmt f (Returned result) = Inr r \<Longrightarrow>
     findTrack result (js ''Video'') \<noteq> None \<or> findTrack result (js ''General'') \<noteq> None"
  by (auto simp: analyzeVideo_def Let_def split: if_splits)

lemma type_literals_distinct:
  "js ''General'' \<noteq> js ''Video''" "js ''Audio'' \<noteq> js ''Video''" "js ''Audio'' \<noteq> js ''General''"
  by (simp_all add: js_def)

lemma findTrack_single:
  "findTrack (Some [t]) ty = (if at_type t = ty then Some t else None)"
  by (simp add: findTrack_def)

lemma emptyTrack_fields:
  "at_type (emptyTrack ty) = ty" "FrameRate (emptyTrack ty) = None"
  "FrameRate_Nominal (emptyTrack ty) = None"
  by (simp_all add: emptyTrack_def)

subsection \<open>The fields of the record that is set\<close>

lemma frameRate_field:
  "analyzeVideo fmt f (Returned result) = Inr r \<Longrightarrow>
     frameRate r =
       (case findTrack result (js ''Video'') of
          Some v \<Rightarrow>
            (case FrameRate v of
               Some x \<Rightarrow> toStr x
             | None \<Rightarrow> (case FrameRate_Nominal v of Some x \<Rightarrow> toStr x | None \<Rightarrow> unknown))
            @ js '' fps''
        | None \<Rightarrow> unknown)"
  by (auto simp: analyzeVideo_def Let_def split: if_splits)

lemma resolution_field:
  "analyzeVideo fmt f (Returned result) = Inr r \<Longrightarrow>
     resolution r =
       (let width = (case findTrack result (js ''Video'') of
                       Some v \<Rightarrow> parseIntV (Width v) | None \<Rightarrow> Fin 0);
            height = (case findTrack result (js ''Video'') of
                        Some v \<Rightarrow> parseIntV (Height v) | None \<Rightarrow> Fin 0)
        in if truthyN width \<and> truthyN height
           then numToString width @ js '' x '' @ numToString height else unknown)"
  by (auto simp: analyzeVideo_def Let_def split: if_splits)

lemma resolutionLabel_field:
  "analyzeVideo fmt f (Returned result) = Inr r \<Longrightarrow>
     resolutionLabel r =
       (let width = (case findTrack result (js ''Video'') of
                       Some v \<Rightarrow> parseIntV (Width v) | None \<Rightarrow> Fin 0);
            height = (case findTrack result (js ''Video'') of
                        Some v \<Rightarrow> parseIntV (Height v) | None \<Rightarrow> Fin 0)
        in if truthyN width \<and> truthyN height
           then getResolutionLabel width height else unknown)"
  by (auto simp: analyzeVideo_def Let_def split: if_splits)

lemma videoCodec_field:
  "analyzeVideo fmt f (Returned result) = Inr r \<Longrightarrow>
     videoCodec r = getDetailedCodec (findTrack result (js ''Video''))"
  by (auto simp: analyzeVideo_def Let_def split: if_splits)

lemma name_field:
  "analyzeVideo fmt f (Returned result) = Inr r \<Longrightarrow> name r = file_name f"
  by (auto simp: analyzeVideo_def Let_def split: if_splits)

lemma updatedDate_field:
  "analyzeVideo fmt f (Returned result) = Inr r \<Longrightarrow> updatedDate r = fmt (file_lastModified f)"
  by (auto simp: analyzeVideo_def Let_def split: if_splits)

lemma size_field:
  "analyzeVideo fmt f (Returned result) = Inr r \<Longrightarrow> size_md r = formatBytes (file_size f) 2"
  by (auto simp: analyzeVideo_def Let_def split: if_splits)

lemma bitRate_field:
  "analyzeVideo fmt f (Returned result) = Inr r \<Longrightarrow>
     bitRate r =
       (case orV (field (findTrack result (js ''Video'')) BitRate) None of
          Some b \<Rightarrow> bitRateText (Some b)
        | None \<Rightarrow>
            (case orV (field (findTrack result (js ''General'')) OverallBitRate) None of
               Some b \<Rightarrow> bitRateText (Some b)
             | None \<Rightarrow> unknown))"
  by (auto simp: analyzeVideo_def Let_def split: if_splits)

lemma bitRateMode_field:
  "analyzeVideo fmt f (Returned result) = Inr r \<Longrightarrow>
     bitRateMode r =
       orElse (orS (field (findTrack result (js ''Video'')) BitRate_Mode)
                   (field (findTrack result (js ''General'')) OverallBitRate_Mode)) unknown"
  by (auto simp: analyzeVideo_def Let_def split: if_splits)

lemma container_field:
  "analyzeVideo fmt f (Returned result) = Inr r \<Longrightarrow>
     container r = orElse (field (findTrack result (js ''General'')) Format) unknown"
  by (auto simp: analyzeVideo_def Let_def split: if_splits)

lemma audioCodec_field:
  "analyzeVideo fmt f (Returned result) = Inr r \<Longrightarrow>
     audioCodec r = getDetailedCodec (findTrack result (js ''Audio''))"
  by (auto simp: analyzeVideo_def Let_def split: if_splits)

lemma fps_not_unknown: "x @ js '' fps'' \<noteq> unknown"
proof
  assume "x @ js '' fps'' = unknown"
  then have "last (x @ js '' fps'') = last unknown" by simp
  then show False by (simp add: js_def unknown_def)
qed

text \<open>
  Claim C1. \<^verbatim>\<open>analyzeVideo\<close> reports the missing-track failure exactly when no track of the
  probe is tagged General or Video, and succeeds otherwise. A probe whose tracks are all
  Audio fails. A probe with a General track and no Video track succeeds, and the fields
  that only a Video track feeds (resolution, resolution class, frame rate, video codec)
  are the sentinel.
\<close>

theorem noMediaTrack_iff:
  "(analyzeVideo fmt f (Returned result) = Inl NoMediaTrack \<longleftrightarrow>
      (\<forall>t \<in> set (tracksOf result). at_type t \<noteq> js ''General'' \<and> at_type t \<noteq> js ''Video''))
   \<and> ((\<exists>r. analyzeVideo fmt f (Returned result) = Inr r) \<longleftrightarrow>
      (\<exists>t \<in> set (tracksOf result). at_type t = js ''General'' \<or> at_type t = js ''Video''))
   \<and> ((\<forall>t \<in> set (tracksOf result). at_type t = js ''Audio'') \<longrightarrow>
      analyzeVideo fmt f (Returned result) = Inl NoMediaTrack)
   \<and> ((\<exists>t \<in> set (tracksOf result). at_type t = js ''General'') \<and>
      (\<forall>t \<in> set (tracksOf result). at_type t \<noteq> js ''Video'') \<longrightarrow>
      (\<exists>r. analyzeVideo fmt f (Returned result) = Inr r \<and> resolution r = unknown \<and>
           resolutionLabel r = unknown \<and> frameRate r = unknown \<and> videoCodec r = unknown))"
proof (intro conjI impI)
  show fails: "analyzeVideo fmt f (Returned result) = Inl NoMediaTrack \<longleftrightarrow>
      (\<forall>t \<in> set (tracksOf result). at_type t \<noteq> js ''General'' \<and> at_type t \<noteq> js ''Video'')"
    by (auto simp: analyzeVideo_Inl_iff findTrack_None_iff)
  show "(\<exists>r. analyzeVideo fmt f (Returned result) = Inr r) \<longleftrightarrow>
      (\<exists>t \<in> set (tracksOf result). at_type t = js ''General'' \<or> at_type t = js ''Video'')"
  proof
    assume "\<exists>r. analyzeVideo fmt f (Returned result) = Inr r"
    then obtain r where "analyzeVideo fmt f (Returned result) = Inr r" ..
    from analyzeVideo_Inr_found [OF this]
    show "\<exists>t \<in> set (tracksOf result). at_type t = js ''General'' \<or> at_type t = js ''Video''"
      by (auto simp: findTrack_None_iff)
  next
    assume "\<exists>t \<in> set (tracksOf result). at_type t = js ''General'' \<or> at_type t = js ''Video''"
    then have "findTrack result (js ''Video'') \<noteq> None \<or> findTrack result (js ''General'') \<noteq> None"
      by (auto simp: findTrack_None_iff)
    then show "\<exists>r. analyzeVideo fmt f (Returned result) = Inr r"
      by (rule analyzeVideo_Inr_ex)
  qed
  {
    assume "\<forall>t \<in> set (tracksOf result). at_type t = js ''Audio''"
    then have "\<forall>t \<in> set (tracksOf result). at_type t \<noteq> js ''General'' \<and> at_type t \<noteq> js ''Video''"
      using type_literals_distinct by auto
    then show "analyzeVideo fmt f (Returned result) = Inl NoMediaTrack"
      using fails by simp
  }
  {
    assume a: "(\<exists>t \<in> set (tracksOf result). at_type t = js ''General'') \<and>
      (\<forall>t \<in> set (tracksOf result). at_type t \<noteq> js ''Video'')"
    then have g: "findTrack result (js ''General'') \<noteq> None"
      and v: "findTrack result (js ''Video'') = None"
      by (auto simp: findTrack_None_iff)
    from g obtain r where r: "analyzeVideo fmt f (Returned result) = Inr r"
      using analyzeVideo_Inr_ex [of result fmt f] by blast
    have "resolution r = unknown" "resolutionLabel r = unknown" "frameRate r = unknown"
      "videoCodec r = unknown"
      using v by (simp_all add: resolution_field [OF r] resolutionLabel_field [OF r]
          frameRate_field [OF r] videoCodec_field [OF r] truthyN_def getDetailedCodec_def)
    with r show "\<exists>r. analyzeVideo fmt f (Returned result) = Inr r \<and> resolution r = unknown \<and>
           resolutionLabel r = unknown \<and> frameRate r = unknown \<and> videoCodec r = unknown"
      by blast
  }
qed

theorem noMediaTrack_iff_witness:
  "analyzeVideo someDate someFile (Returned (Some [emptyTrack (js ''Audio'')])) = Inl NoMediaTrack
   \<and> (\<exists>r. analyzeVideo someDate someFile (Returned (Some [emptyTrack (js ''General'')])) = Inr r
          \<and> resolution r = unknown \<and> resolutionLabel r = unknown \<and> frameRate r = unknown
          \<and> videoCodec r = unknown)"
  using noMediaTrack_iff [of someDate someFile "Some [emptyTrack (js ''Audio'')]"]
    noMediaTrack_iff [of someDate someFile "Some [emptyTrack (js ''General'')]"]
    type_literals_distinct
  by (simp add: tracksOf_def emptyTrack_fields)

text \<open>
  Claim C10. When the selected Video track has neither a \<^verbatim>\<open>FrameRate\<close> nor a
  \<^verbatim>\<open>FrameRate_Nominal\<close> field, the frame-rate field is the sentinel followed by
  \<^verbatim>\<open>" fps"\<close>; the bare sentinel appears exactly when there is no Video track.
\<close>

theorem frameRate_sentinel:
  "(findTrack result (js ''Video'') = Some v \<and> FrameRate v = None \<and> FrameRate_Nominal v = None
      \<longrightarrow> (\<exists>r. analyzeVideo fmt f (Returned result) = Inr r
                \<and> frameRate r = unknown @ js '' fps'' \<and> frameRate r \<noteq> unknown))
   \<and> (analyzeVideo fmt f (Returned result) = Inr r \<longrightarrow>
        (frameRate r = unknown \<longleftrightarrow> findTrack result (js ''Video'') = None))"
proof (intro conjI impI)
  assume a: "findTrack result (js ''Video'') = Some v \<and> FrameRate v = None
     \<and> FrameRate_Nominal v = None"
  then obtain r where r: "analyzeVideo fmt f (Returned result) = Inr r"
    using analyzeVideo_Inr_ex [of result fmt f] by auto
  have "frameRate r = unknown @ js '' fps''"
    using a by (simp add: frameRate_field [OF r])
  with r show "\<exists>r. analyzeVideo fmt f (Returned result) = Inr r
                \<and> frameRate r = unknown @ js '' fps'' \<and> frameRate r \<noteq> unknown"
    using fps_not_unknown by auto
next
  assume r: "analyzeVideo fmt f (Returned result) = Inr r"
  show "frameRate r = unknown \<longleftrightarrow> findTrack result (js ''Video'') = None"
    using fps_not_unknown by (auto simp: frameRate_field [OF r] split: option.splits)
qed

theorem frameRate_sentinel_witness:
  "\<exists>r. analyzeVideo someDate someFile (Returned (Some [emptyTrack (js ''Video'')])) = Inr r
        \<and> frameRate r = unknown @ js '' fps'' \<and> frameRate r \<noteq> unknown
        \<and> findTrack (Some [emptyTrack (js ''Video'')]) (js ''Video'') \<noteq> None"
proof -
  let ?res = "Some [emptyTrack (js ''Video'')]"
  have sel: "findTrack ?res (js ''Video'') = Some (emptyTrack (js ''Video''))"
    by (simp add: findTrack_single emptyTrack_fields)
  have "\<exists>r. analyzeVideo someDate someFile (Returned ?res) = Inr r
        \<and> frameRate r = unknown @ js '' fps'' \<and> frameRate r \<noteq> unknown"
    using frameRate_sentinel [THEN conjunct1, of ?res "emptyTrack (js ''Video'')" someDate someFile]
      sel by (simp add: emptyTrack_fields)
  then obtain r where r: "analyzeVideo someDate someFile (Returned ?res) = Inr r"
    and fr: "frameRate r = unknown @ js '' fps''" "frameRate r \<noteq> unknown"
    by blast
  have "findTrack ?res (js ''Video'') \<noteq> None"
    using frameRate_sentinel [THEN conjunct2, of someDate someFile ?res r] r fr by simp
  with r fr show ?thesis by blast
qed

section \<open>The codec resolver\<close>

lemma includes_str_sublist: "includes_str s p \<longleftrightarrow> sublist p s"
  by (induction s) (simp_all add: sublist_Cons_right)

lemma codec_codes_distinct:
  "js ''AVC'' \<noteq> js ''HEVC''" "js ''AVC'' \<noteq> js ''MPEG-4 Visual''" "js ''AVC'' \<noteq> js ''AAC''"
  "js ''HEVC'' \<noteq> js ''MPEG-4 Visual''" "js ''HEVC'' \<noteq> js ''AAC''"
  "js ''MPEG-4 Visual'' \<noteq> js ''AAC''"
  "js ''AVC'' \<noteq> []" "js ''HEVC'' \<noteq> []" "js ''MPEG-4 Visual'' \<noteq> []" "js ''AAC'' \<noteq> []"
  by (simp_all add: js_def)

lemma codec_names_differ:
  "js ''H.264'' \<noteq> js ''Advanced Video Coding''" "js ''H.264'' \<noteq> []"
  "js ''H.265'' \<noteq> js ''High Efficiency Video Coding''" "js ''H.265'' \<noteq> []"
  "js ''Visual'' \<noteq> js ''MPEG-4 Part 2''" "js ''Visual'' \<noteq> []"
  "js ''MPEG-4 AAC'' \<noteq> js ''Advanced Audio Coding''" "js ''MPEG-4 AAC'' \<noteq> []"
  by (simp_all add: js_def)

lemmas codec_unfold = getDetailedCodec_def displayName_def codecNames_def codecTable_def
  composedName_def profileShown_def includes_str_sublist Let_def

text \<open>
  The resolver returns the display name of the track, and falls back to \<^verbatim>\<open>CodecID\<close> and
  then to the sentinel only when the display name is empty.
\<close>

lemma getDetailedCodec_display:
  "getDetailedCodec (Some t) =
     (if displayName t \<noteq> [] then displayName t else orElse (CodecID t) unknown)"
proof -
  consider "orElse (Format t) [] = js ''AVC''" | "orElse (Format t) [] = js ''HEVC''"
    | "orElse (Format t) [] = js ''MPEG-4 Visual''" | "orElse (Format t) [] = js ''AAC''"
    | "orElse (Format t) [] \<noteq> js ''AVC''" "orElse (Format t) [] \<noteq> js ''HEVC''"
      "orElse (Format t) [] \<noteq> js ''MPEG-4 Visual''" "orElse (Format t) [] \<noteq> js ''AAC''"
    by blast
  then show ?thesis
  proof cases
    case 1
    then show ?thesis
      by (simp add: codec_unfold codec_codes_distinct codec_names_differ
          codec_names_differ [symmetric])
  next
    case 2
    then show ?thesis
      by (simp add: codec_unfold codec_codes_distinct codec_codes_distinct [symmetric]
          codec_names_differ codec_names_differ [symmetric])
  next
    case 3
    then show ?thesis
      by (simp add: codec_unfold codec_codes_distinct codec_codes_distinct [symmetric]
          codec_names_differ codec_names_differ [symmetric])
  next
    case 4
    then show ?thesis
      by (simp add: codec_unfold codec_codes_distinct codec_codes_distinct [symmetric]
          codec_names_differ codec_names_differ [symmetric])
  next
    case 5
    then show ?thesis
      by (auto simp: codec_unfold)
  qed
qed

lemma orElse_simps:
  "orElse None d = d" "orElse (Some s) d = (if s \<noteq> [] then s else d)"
  by (simp_all add: orElse_def)

lemma emptyTrack_codec_fields:
  "Format (emptyTrack ty) = None" "Format_Information (emptyTrack ty) = None"
  "Format_Profile (emptyTrack ty) = None" "CodecID (emptyTrack ty) = None"
  by (simp_all add: emptyTrack_def)

lemmas codec_eval = emptyTrack_codec_fields orElse_simps js_def lparen_def rparen_def Let_def

lemma getDetailedCodec_avcHigh:
  "getDetailedCodec (Some avcHigh) =
     js ''Advanced Video Coding'' @ lparen @ js ''H.264'' @ rparen @ js '' [High]''"
  by (simp add: getDetailedCodec_def avcHigh_def codec_eval)

lemma getDetailedCodec_avcMain:
  "getDetailedCodec (Some avcMain) = js ''Advanced Video Coding'' @ lparen @ js ''H.264'' @ rparen"
  by (simp add: getDetailedCodec_def avcMain_def codec_eval)

lemma getDetailedCodec_infoOnly: "getDetailedCodec (Some infoOnly) = js ''Dolby Digital''"
  by (simp add: getDetailedCodec_def infoOnly_def codec_eval)

lemma codecNames_infoOnly: "codecNames infoOnly = (js ''Dolby Digital'', js ''Dolby Digital'')"
  by (simp add: codecNames_def codecTable_def infoOnly_def codec_eval)

lemma getDetailedCodec_vp9Track: "getDetailedCodec (Some vp9Track) = js ''VP9''"
  by (simp add: getDetailedCodec_def vp9Track_def codec_eval)

lemma codecNames_table:
  "Format t = Some (js ''AVC'') \<Longrightarrow> codecNames t = (js ''Advanced Video Coding'', js ''H.264'')"
  "Format t = Some (js ''HEVC'') \<Longrightarrow>
     codecNames t = (js ''High Efficiency Video Coding'', js ''H.265'')"
  "Format t = Some (js ''MPEG-4 Visual'') \<Longrightarrow> codecNames t = (js ''MPEG-4 Part 2'', js ''Visual'')"
  "Format t = Some (js ''AAC'') \<Longrightarrow> codecNames t = (js ''Advanced Audio Coding'', js ''MPEG-4 AAC'')"
  by (simp_all add: codecNames_def codecTable_def orElse_simps codec_codes_distinct
      codec_codes_distinct [symmetric])

lemma getDetailedCodec_ac3Track:
  "getDetailedCodec (Some ac3Track) = js ''Audio Coding 3'' @ lparen @ js ''AC-3'' @ rparen"
  by (simp add: getDetailedCodec_def ac3Track_def codec_eval)

lemma ac3_outside_table: "map_of codecTable (js ''AC-3'') = None"
  by (simp add: codecTable_def js_def)

lemma ac3Track_fields:
  "Format ac3Track = Some (js ''AC-3'')"
  "Format_Information ac3Track = Some (js ''Audio Coding 3'')"
  "Format_Profile ac3Track = None"
  by (simp_all add: ac3Track_def emptyTrack_codec_fields)

lemma ac3_nonempty: "js ''AC-3'' \<noteq> []" "js ''Audio Coding 3'' \<noteq> []"
  "js ''AC-3'' \<noteq> js ''Audio Coding 3''"
  by (simp_all add: js_def)

lemma codecNames_ac3Track: "codecNames ac3Track = (js ''Audio Coding 3'', js ''AC-3'')"
  by (simp add: codecNames_def ac3Track_fields orElse_simps ac3_nonempty ac3_outside_table)

text \<open>
  Claim C5, as stated, fails. The code \<^verbatim>\<open>AC-3\<close> is outside the table, so the
  specification gives the track its default name, the format information, as both names,
  and the claim shows that name alone. The resolver keeps the format code as the short
  name and shows it in parentheses.
\<close>

theorem codec_display_counterexample:
  "map_of codecTable (js ''AC-3'') = None
   \<and> Format ac3Track = Some (js ''AC-3'')
   \<and> Format_Information ac3Track = Some (js ''Audio Coding 3'')
   \<and> Format_Profile ac3Track = None
   \<and> specNames ac3Track = (js ''Audio Coding 3'', js ''Audio Coding 3'')
   \<and> composedName (js ''Audio Coding 3'') (js ''Audio Coding 3'') = js ''Audio Coding 3''
   \<and> getDetailedCodec (Some ac3Track) = js ''Audio Coding 3'' @ lparen @ js ''AC-3'' @ rparen
   \<and> getDetailedCodec (Some ac3Track) \<noteq> js ''Audio Coding 3''"
proof -
  have "specNames ac3Track = (js ''Audio Coding 3'', js ''Audio Coding 3'')"
    by (simp add: specNames_def defaultName_def ac3Track_fields orElse_simps ac3_nonempty
        ac3_outside_table)
  moreover have "js ''Audio Coding 3'' @ lparen @ js ''AC-3'' @ rparen \<noteq> js ''Audio Coding 3''"
    by (simp add: lparen_def)
  ultimately show ?thesis
    by (simp add: getDetailedCodec_ac3Track ac3_outside_table ac3Track_fields composedName_def)
qed

text \<open>
  Claim C5, amended. For a present track the four codes of the table give their canonical
  name pairs; for a code outside the table the long name is the format information, or the
  format code when there is none, and the short name is the format code, or the long name
  again when the track has no format code. The composed name is the long name alone when
  the two names coincide, else the long name with the short name in full-width
  parentheses; the profile is appended in brackets exactly when it is present, is neither
  \<^verbatim>\<open>Base\<close> nor \<^verbatim>\<open>Main\<close> and is not a substring of the composed name. The resolver
  returns this display name whenever it is not empty. The two sample tracks of the
  specification give the two strings it names.
\<close>

theorem codec_display_name:
  "(displayName t \<noteq> [] \<longrightarrow> getDetailedCodec (Some t) = displayName t)
   \<and> (Format t = Some (js ''AVC'') \<longrightarrow>
        codecNames t = (js ''Advanced Video Coding'', js ''H.264''))
   \<and> (Format t = Some (js ''HEVC'') \<longrightarrow>
        codecNames t = (js ''High Efficiency Video Coding'', js ''H.265''))
   \<and> (Format t = Some (js ''MPEG-4 Visual'') \<longrightarrow>
        codecNames t = (js ''MPEG-4 Part 2'', js ''Visual''))
   \<and> (Format t = Some (js ''AAC'') \<longrightarrow>
        codecNames t = (js ''Advanced Audio Coding'', js ''MPEG-4 AAC''))
   \<and> getDetailedCodec (Some avcHigh) =
        js ''Advanced Video Coding'' @ lparen @ js ''H.264'' @ rparen @ js '' [High]''
   \<and> getDetailedCodec (Some avcMain) =
        js ''Advanced Video Coding'' @ lparen @ js ''H.264'' @ rparen"
proof (intro conjI impI)
  assume "displayName t \<noteq> []"
  then show "getDetailedCodec (Some t) = displayName t"
    by (simp add: getDetailedCodec_display)
qed (simp_all add: codecNames_table getDetailedCodec_avcHigh getDetailedCodec_avcMain)

theorem codec_display_name_witness:
  "Format avcHigh = Some (js ''AVC'')
   \<and> codecNames avcHigh = (js ''Advanced Video Coding'', js ''H.264'')
   \<and> displayName avcHigh \<noteq> []
   \<and> getDetailedCodec (Some avcHigh) = displayName avcHigh
   \<and> displayName ac3Track = js ''Audio Coding 3'' @ lparen @ js ''AC-3'' @ rparen
   \<and> getDetailedCodec (Some ac3Track) = displayName ac3Track"
proof -
  have f: "Format avcHigh = Some (js ''AVC'')"
    by (simp add: avcHigh_def)
  have d: "displayName avcHigh \<noteq> []"
    by (simp add: displayName_def composedName_def codecNames_table(1) [OF f] profileShown_def
        codec_names_differ Let_def)
  have a: "displayName ac3Track = js ''Audio Coding 3'' @ lparen @ js ''AC-3'' @ rparen"
    by (simp add: displayName_def composedName_def codecNames_ac3Track profileShown_def
        ac3Track_fields orElse_simps ac3_nonempty Let_def)
  have n: "displayName ac3Track \<noteq> []"
    by (simp add: a ac3_nonempty)
  from codec_display_name [of avcHigh] f d have
    "codecNames avcHigh = (js ''Advanced Video Coding'', js ''H.264'')"
    "getDetailedCodec (Some avcHigh) = displayName avcHigh"
    by simp_all
  moreover from codec_display_name [of ac3Track] n have
    "getDetailedCodec (Some ac3Track) = displayName ac3Track"
    by simp
  ultimately show ?thesis
    using f d a by simp
qed

text \<open>
  Claim C6, as stated, fails: a format code outside the table with no format information
  is itself the name that is returned, whatever \<^verbatim>\<open>CodecID\<close> holds.
\<close>

theorem codec_fallback_counterexample:
  "map_of codecTable (js ''VP9'') = None \<and> Format vp9Track = Some (js ''VP9'')
   \<and> Format_Information vp9Track = None \<and> CodecID vp9Track = Some (js ''V_VP9'')
   \<and> getDetailedCodec (Some vp9Track) = js ''VP9''
   \<and> getDetailedCodec (Some vp9Track) \<noteq> js ''V_VP9''"
  by (simp add: getDetailedCodec_vp9Track)
    (simp add: vp9Track_def emptyTrack_codec_fields codecTable_def js_def)

text \<open>
  Claim C6, amended. For a track with no format information and no profile to show
  (absent, \<^verbatim>\<open>Base\<close> or \<^verbatim>\<open>Main\<close>): when the format code is absent too, the resolver
  returns \<^verbatim>\<open>CodecID\<close>, and the sentinel only when \<^verbatim>\<open>CodecID\<close> is absent as well; when
  the format code is present and outside the table, the resolver returns that code.
\<close>

theorem codec_fallback:
  "(orElse (Format t) [] = [] \<and> orElse (Format_Information t) [] = []
      \<and> orElse (Format_Profile t) [] \<in> {[], js ''Base'', js ''Main''}
      \<longrightarrow> getDetailedCodec (Some t) =
            (case CodecID t of None \<Rightarrow> unknown | Some c \<Rightarrow> if c \<noteq> [] then c else unknown))
   \<and> (orElse (Format t) [] \<noteq> [] \<and> map_of codecTable (orElse (Format t) []) = None
      \<and> orElse (Format_Information t) [] = []
      \<and> orElse (Format_Profile t) [] \<in> {[], js ''Base'', js ''Main''}
      \<longrightarrow> getDetailedCodec (Some t) = orElse (Format t) [])"
proof (intro conjI impI)
  assume a: "orElse (Format t) [] = [] \<and> orElse (Format_Information t) [] = []
      \<and> orElse (Format_Profile t) [] \<in> {[], js ''Base'', js ''Main''}"
  then have n: "codecNames t = ([], [])"
    by (simp add: codecNames_def codecTable_def codec_codes_distinct
        codec_codes_distinct [symmetric])
  have p: "\<not> profileShown t []"
    using a by (auto simp: profileShown_def Let_def)
  have "displayName t = []"
    by (simp add: displayName_def n p composedName_def)
  then show "getDetailedCodec (Some t) =
            (case CodecID t of None \<Rightarrow> unknown | Some c \<Rightarrow> if c \<noteq> [] then c else unknown)"
    by (simp add: getDetailedCodec_display orElse_def)
next
  assume a: "orElse (Format t) [] \<noteq> [] \<and> map_of codecTable (orElse (Format t) []) = None
      \<and> orElse (Format_Information t) [] = []
      \<and> orElse (Format_Profile t) [] \<in> {[], js ''Base'', js ''Main''}"
  then have n: "codecNames t = (orElse (Format t) [], orElse (Format t) [])"
    by (simp add: codecNames_def Let_def)
  have p: "\<not> profileShown t (orElse (Format t) [])"
    using a by (auto simp: profileShown_def Let_def)
  have "displayName t = orElse (Format t) []"
    by (simp add: displayName_def n p composedName_def)
  with a show "getDetailedCodec (Some t) = orElse (Format t) []"
    by (simp add: getDetailedCodec_display)
qed

theorem codec_fallback_witness:
  "getDetailedCodec (Some codecIdOnly) = js ''V_VP9''
   \<and> getDetailedCodec (Some (emptyTrack (js ''Video''))) = unknown
   \<and> getDetailedCodec (Some vp9Track) = js ''VP9''"
proof -
  have v: "js ''V_VP9'' \<noteq> []" "js ''VP9'' \<noteq> []" "map_of codecTable (js ''VP9'') = None"
    by (simp_all add: js_def codecTable_def)
  have "getDetailedCodec (Some codecIdOnly) = js ''V_VP9''"
    using codec_fallback [of codecIdOnly] v
    by (simp add: codecIdOnly_def emptyTrack_codec_fields orElse_simps)
  moreover have "getDetailedCodec (Some (emptyTrack (js ''Video''))) = unknown"
    using codec_fallback [of "emptyTrack (js ''Video'')"]
    by (simp add: emptyTrack_codec_fields orElse_simps)
  moreover have "getDetailedCodec (Some vp9Track) = js ''VP9''"
    using codec_fallback [of vp9Track] v
    by (simp add: vp9Track_def emptyTrack_codec_fields orElse_simps)
  ultimately show ?thesis by simp
qed

section \<open>Numbers as text and text as numbers\<close>

lemma digits_numeral:
  "digits (numeral k) =
     (if (numeral k :: nat) < 10 then [digitChar (numeral k)]
      else digits (numeral k div 10) @ [digitChar (numeral k mod 10)])"
  by (rule digits.simps)

lemma digits_small: "n < 10 \<Longrightarrow> digits n = [digitChar n]"
  by (simp add: digits.simps)

lemma digits_0_1: "digits 0 = [digitChar 0]" "digits (Suc 0) = [digitChar 1]"
  by (simp_all add: digits_small)

lemmas digits_eval = digits_numeral digits_0_1 digitChar_def

lemmas parse_eval = js_def signPart_def isWhiteSpace_def isDigit_def digitVal_def decimalValue_def
  radixDigit_def radixValue_def exponentPart_def Let_def

lemma numToString_nat: "numToString (Fin (of_nat n)) = digits n"
  by (simp add: numToString_def)

lemma numToString_numeral: "numToString (Fin (numeral k)) = digits (numeral k)"
  using numToString_nat [of "numeral k"] by simp

lemma numToString_0: "numToString (Fin 0) = digits 0"
  using numToString_nat [of 0] by simp

lemma parseInt_cases: "parseInt s = NaN \<or> (\<exists>k::int. parseInt s = Fin (of_int k))"
proof -
  have "\<exists>k::int. - rat_of_nat n = of_int k" for n
    by (rule exI [of _ "- int n"]) simp
  moreover have "\<exists>k::int. rat_of_nat n = of_int k" for n
    by (rule exI [of _ "int n"]) simp
  ultimately show ?thesis
    by (simp add: parseInt_def Let_def split: prod.splits)
qed

lemma parseIntV_cases: "parseIntV x = NaN \<or> (\<exists>k::int. parseIntV x = Fin (of_int k))"
  using parseInt_cases by (simp add: parseIntV_def split: option.splits)

section \<open>Resolution\<close>

lemma getResolutionLabel_Fin: "getResolutionLabel (Fin a) (Fin b) = sizeClass (max a b)"
  by (simp add: getResolutionLabel_def sizeClass_def Let_def)

text \<open>
  Claim C9. The class of a resolution is decided by the longer edge, highest threshold
  first: 4K from 3840, 2K from 2560, FullHD from 1920, HD from 1280, else SD. When the
  width or the height is zero or does not parse (and when there is no Video track), the
  class and the resolution text are both the sentinel. \<^verbatim>\<open>parseInt\<close> yields an integer or
  \<^verbatim>\<open>NaN\<close>, so the two cases cover every track.
\<close>

theorem resolution_classes:
  assumes "analyzeVideo fmt f (Returned result) = Inr r"
  shows "(findTrack result (js ''Video'') = None \<longrightarrow>
            resolution r = unknown \<and> resolutionLabel r = unknown)
    \<and> (\<forall>v. findTrack result (js ''Video'') = Some v \<longrightarrow>
          (parseIntV (Width v) = NaN \<or> (\<exists>a::int. parseIntV (Width v) = Fin (of_int a)))
        \<and> (parseIntV (Height v) = NaN \<or> (\<exists>b::int. parseIntV (Height v) = Fin (of_int b)))
        \<and> (parseIntV (Width v) \<in> {NaN, Fin 0} \<or> parseIntV (Height v) \<in> {NaN, Fin 0} \<longrightarrow>
              resolution r = unknown \<and> resolutionLabel r = unknown)
        \<and> (\<forall>a b. parseIntV (Width v) = Fin a \<and> parseIntV (Height v) = Fin b \<and> a \<noteq> 0 \<and> b \<noteq> 0
              \<longrightarrow> resolutionLabel r = sizeClass (max a b)
                \<and> resolution r = numToString (Fin a) @ js '' x '' @ numToString (Fin b)))
    \<and> getResolutionLabel (Fin 3840) (Fin 2160) = js ''4K''
    \<and> getResolutionLabel (Fin 1280) (Fin 720) = js ''HD''"
proof (intro conjI allI impI)
  show "getResolutionLabel (Fin 3840) (Fin 2160) = js ''4K''"
    "getResolutionLabel (Fin 1280) (Fin 720) = js ''HD''"
    by (simp_all add: getResolutionLabel_Fin sizeClass_def)
next
  assume "findTrack result (js ''Video'') = None"
  then show "resolution r = unknown" "resolutionLabel r = unknown"
    by (simp_all add: resolution_field [OF assms] resolutionLabel_field [OF assms] truthyN_def)
next
  fix v
  show "parseIntV (Width v) = NaN \<or> (\<exists>a::int. parseIntV (Width v) = Fin (of_int a))"
    by (rule parseIntV_cases)
  show "parseIntV (Height v) = NaN \<or> (\<exists>b::int. parseIntV (Height v) = Fin (of_int b))"
    by (rule parseIntV_cases)
next
  fix v
  assume v: "findTrack result (js ''Video'') = Some v"
    and z: "parseIntV (Width v) \<in> {NaN, Fin 0} \<or> parseIntV (Height v) \<in> {NaN, Fin 0}"
  from z have "\<not> (truthyN (parseIntV (Width v)) \<and> truthyN (parseIntV (Height v)))"
    by (auto simp: truthyN_def)
  then show "resolution r = unknown" "resolutionLabel r = unknown"
    using v by (auto simp: resolution_field [OF assms] resolutionLabel_field [OF assms] Let_def)
next
  fix v a b
  assume v: "findTrack result (js ''Video'') = Some v"
    and p: "parseIntV (Width v) = Fin a \<and> parseIntV (Height v) = Fin b \<and> a \<noteq> 0 \<and> b \<noteq> 0"
  then show "resolutionLabel r = sizeClass (max a b)"
    by (simp add: resolutionLabel_field [OF assms] truthyN_def getResolutionLabel_Fin)
  from v p show "resolution r = numToString (Fin a) @ js '' x '' @ numToString (Fin b)"
    by (simp add: resolution_field [OF assms] truthyN_def)
qed

lemma videoWH_fields:
  "at_type (videoWH w h) = js ''Video''" "Width (videoWH w h) = Some (JStr w)"
  "Height (videoWH w h) = Some (JStr h)"
  by (simp_all add: videoWH_def emptyTrack_def)

lemma parseInt_samples:
  "parseInt (js ''3840'') = Fin 3840" "parseInt (js ''2160'') = Fin 2160"
  "parseInt (js ''1280'') = Fin 1280" "parseInt (js ''720'') = Fin 720"
  "parseInt (js ''0'') = Fin 0"
  by (simp_all add: parseInt_def parse_eval)

lemma numToString_samples:
  "numToString (Fin 3840) = js ''3840''" "numToString (Fin 2160) = js ''2160''"
  "numToString (Fin 1280) = js ''1280''" "numToString (Fin 720) = js ''720''"
  by (simp_all add: numToString_numeral digits_eval js_def)

lemma sizeClass_samples: "sizeClass 3840 = js ''4K''" "sizeClass 1280 = js ''HD''"
  by (simp_all add: sizeClass_def)

theorem resolution_classes_witness:
  "(\<exists>r. analyzeVideo someDate someFile (Returned (Some [videoWH (js ''3840'') (js ''2160'')])) = Inr r
       \<and> resolutionLabel r = js ''4K'' \<and> resolution r = js ''3840 x 2160'')
   \<and> (\<exists>r. analyzeVideo someDate someFile (Returned (Some [videoWH (js ''1280'') (js ''720'')])) = Inr r
       \<and> resolutionLabel r = js ''HD'' \<and> resolution r = js ''1280 x 720'')
   \<and> (\<exists>r. analyzeVideo someDate someFile (Returned (Some [videoWH (js ''0'') (js ''0'')])) = Inr r
       \<and> resolutionLabel r = unknown \<and> resolution r = unknown)"
proof (intro conjI)
  let ?go = "\<lambda>w h. analyzeVideo someDate someFile (Returned (Some [videoWH w h]))"
  have sel: "findTrack (Some [videoWH w h]) (js ''Video'') = Some (videoWH w h)" for w h
    by (simp add: findTrack_single videoWH_fields)
  have ex: "\<exists>r. ?go w h = Inr r" for w h
    by (rule analyzeVideo_Inr_ex) (simp add: sel)
  have pv: "parseIntV (Some (JStr s)) = parseInt s" for s
    by (simp add: parseIntV_def toStr_def)
  {
    obtain r where r: "?go (js ''3840'') (js ''2160'') = Inr r" using ex by blast
    from resolution_classes [OF r, THEN conjunct2, THEN conjunct1, rule_format, OF sel]
    have "resolutionLabel r = sizeClass (max 3840 2160)
       \<and> resolution r = numToString (Fin 3840) @ js '' x '' @ numToString (Fin 2160)"
      by (simp add: videoWH_fields pv parseInt_samples)
    then have "resolutionLabel r = js ''4K'' \<and> resolution r = js ''3840 x 2160''"
      by (simp add: sizeClass_samples numToString_samples js_def)
    with r show "\<exists>r. ?go (js ''3840'') (js ''2160'') = Inr r
       \<and> resolutionLabel r = js ''4K'' \<and> resolution r = js ''3840 x 2160''" by blast
  }
  {
    obtain r where r: "?go (js ''1280'') (js ''720'') = Inr r" using ex by blast
    from resolution_classes [OF r, THEN conjunct2, THEN conjunct1, rule_format, OF sel]
    have "resolutionLabel r = sizeClass (max 1280 720)
       \<and> resolution r = numToString (Fin 1280) @ js '' x '' @ numToString (Fin 720)"
      by (simp add: videoWH_fields pv parseInt_samples)
    then have "resolutionLabel r = js ''HD'' \<and> resolution r = js ''1280 x 720''"
      by (simp add: sizeClass_samples numToString_samples js_def)
    with r show "\<exists>r. ?go (js ''1280'') (js ''720'') = Inr r
       \<and> resolutionLabel r = js ''HD'' \<and> resolution r = js ''1280 x 720''" by blast
  }
  {
    obtain r where r: "?go (js ''0'') (js ''0'') = Inr r" using ex by blast
    from resolution_classes [OF r, THEN conjunct2, THEN conjunct1, rule_format, OF sel]
    have "resolutionLabel r = unknown \<and> resolution r = unknown"
      by (simp add: videoWH_fields pv parseInt_samples)
    with r show "\<exists>r. ?go (js ''0'') (js ''0'') = Inr r
       \<and> resolutionLabel r = unknown \<and> resolution r = unknown" by blast
  }
qed

section \<open>Decimal digits\<close>

lemma below_ten: "d < 10 \<Longrightarrow> d \<in> {0, 1, 2, 3, 4, 5, 6, 7, 8, 9::nat}"
  by auto

lemma digitChar_props:
  assumes "d < 10"
  shows "isDigit (digitChar d)" "digitVal (digitChar d) = d" "\<not> isWhiteSpace (digitChar d)"
    "digitChar d \<noteq> 0x2D" "digitChar d \<noteq> 0x2B" "digitChar d \<noteq> 0x2E" "digitChar d \<noteq> 0x49"
  using below_ten [OF assms]
  by (auto simp: digitChar_def isDigit_def digitVal_def isWhiteSpace_def)

lemma digits_step: "n \<ge> 10 \<Longrightarrow> digits n = digits (n div 10) @ [digitChar (n mod 10)]"
  by (subst digits.simps) simp

lemma digits_nonempty: "digits n \<noteq> []"
  by (subst digits.simps) simp

lemma digits_all_digit: "\<forall>c \<in> set (digits n). isDigit c"
proof (induction n rule: digits.induct)
  case (1 n)
  show ?case
  proof (cases "n < 10")
    case True
    then show ?thesis by (simp add: digits_small digitChar_props)
  next
    case False
    then have "digits n = digits (n div 10) @ [digitChar (n mod 10)]"
      by (simp add: digits_step)
    with 1 False show ?thesis by (simp add: digitChar_props)
  qed
qed

lemma decimalValue_append:
  "decimalValue (xs @ [c]) = 10 * decimalValue xs + digitVal c"
  by (simp add: decimalValue_def)

lemma decimalValue_digits: "decimalValue (digits n) = n"
proof (induction n rule: digits.induct)
  case (1 n)
  show ?case
  proof (cases "n < 10")
    case True
    then show ?thesis by (simp add: digits_small decimalValue_def digitChar_props)
  next
    case False
    then have "digits n = digits (n div 10) @ [digitChar (n mod 10)]"
      by (simp add: digits_step)
    with 1 False show ?thesis by (simp add: decimalValue_append digitChar_props)
  qed
qed

lemma digits_hd:
  "\<exists>d r. d < 10 \<and> digits n = digitChar d # r"
proof (induction n rule: digits.induct)
  case (1 n)
  show ?case
  proof (cases "n < 10")
    case True
    then show ?thesis by (auto simp: digits_small)
  next
    case False
    then have "digits n = digits (n div 10) @ [digitChar (n mod 10)]"
      by (simp add: digits_step)
    with 1 False show ?thesis by auto
  qed
qed

lemma digits_length_ge: "n \<ge> 100 \<Longrightarrow> length (digits n) \<ge> 3"
proof -
  assume a: "n \<ge> 100"
  then have "digits n = digits (n div 10 div 10) @ [digitChar (n div 10 mod 10)] @ [digitChar (n mod 10)]"
    by (simp add: digits_step)
  moreover have "length (digits (n div 10 div 10)) \<ge> 1"
    using digits_nonempty [of "n div 10 div 10"] by (cases "digits (n div 10 div 10)") auto
  ultimately show ?thesis by simp
qed

text \<open>The last two digits of a number, after the padding that \<^verbatim>\<open>toFixed(2)\<close> applies.\<close>

lemma digits_padded:
  "replicate (3 - length (digits n)) (digitChar 0) @ digits n =
     digits (n div 100) @ [digitChar (n div 10 mod 10), digitChar (n mod 10)]"
proof -
  consider "n < 10" | "10 \<le> n" "n < 100" | "100 \<le> n" by linarith
  then show ?thesis
  proof cases
    case 1
    then show ?thesis
      by (simp add: digits_small numeral_3_eq_3)
  next
    case 2
    then have "digits n = [digitChar (n div 10), digitChar (n mod 10)]"
      by (simp add: digits_step digits_small)
    with 2 show ?thesis
      by (simp add: digits_small numeral_3_eq_3)
  next
    case 3
    have "n div 10 div 10 = n div 100"
      by (simp add: div_mult2_eq [symmetric])
    with 3 have d: "digits n = digits (n div 100) @ [digitChar (n div 10 mod 10), digitChar (n mod 10)]"
      by (simp add: digits_step)
    from digits_length_ge [OF 3] have "3 - length (digits n) = 0" by simp
    with d show ?thesis by simp
  qed
qed

section \<open>The text pipeline of \<^verbatim>\<open>formatBytes\<close>\<close>

lemma toFixed_2:
  assumes "0 \<le> q" "q < 10 ^ 21"
  shows "toFixed 2 (Fin q) =
     digits (roundHundredths q div 100) @ js ''.'' @
       [digitChar (roundHundredths q div 10 mod 10), digitChar (roundHundredths q mod 10)]"
proof -
  define n where "n = roundHundredths q"
  define z where "z = replicate (3 - length (digits n)) (digitChar 0) @ digits n"
  have z: "z = digits (n div 100) @ [digitChar (n div 10 mod 10), digitChar (n mod 10)]"
    unfolding z_def by (rule digits_padded)
  have n: "nat \<lfloor>q * 100 + 1 / 2\<rfloor> = n"
    by (simp add: n_def roundHundredths_def)
  have "toFixed 2 (Fin q) = take (length z - 2) z @ js ''.'' @ drop (length z - 2) z"
    using assms by (simp add: toFixed_def Let_def n z_def)
  also have "\<dots> = digits (n div 100) @ js ''.'' @ [digitChar (n div 10 mod 10), digitChar (n mod 10)]"
    by (simp add: z)
  finally show ?thesis by (simp add: n_def)
qed

lemma isDigit_point: "\<not> isDigit 0x2E"
  by (simp add: isDigit_def)

lemma parseFloat_fixed:
  assumes "d1 < 10" "d0 < 10"
  shows "parseFloat (digits a @ js ''.'' @ [digitChar d1, digitChar d0]) =
     Fin (of_nat (100 * a + 10 * d1 + d0) / 100)"
proof -
  define s where "s = digits a @ js ''.'' @ [digitChar d1, digitChar d0]"
  have point: "js ''.'' = [0x2E]" by (simp add: js_def)
  obtain d r where d: "d < 10" "digits a = digitChar d # r"
    using digits_hd by blast
  have hd: "s = digitChar d # (r @ js ''.'' @ [digitChar d1, digitChar d0])"
    by (simp add: s_def d)
  have ws: "dropWhile isWhiteSpace s = s"
    by (simp add: hd digitChar_props [OF d(1)])
  have sg: "signPart s = (False, s)"
    by (simp add: signPart_def hd digitChar_props [OF d(1)])
  have inf: "\<not> prefix (js ''Infinity'') s"
    using digitChar_props(7) [OF d(1)] by (simp add: hd js_def)
  have s2: "s = digits a @ 0x2E # [digitChar d1, digitChar d0]"
    by (simp add: s_def point)
  have tw: "takeWhile isDigit s = digits a"
    unfolding s2 using digits_all_digit [of a] isDigit_point
    by (simp add: takeWhile_tail)
  have dw: "dropWhile isDigit s = 0x2E # [digitChar d1, digitChar d0]"
    unfolding s2 using digits_all_digit [of a] isDigit_point
    by (simp add: dropWhile_append2)
  have fp: "takeWhile isDigit [digitChar d1, digitChar d0] = [digitChar d1, digitChar d0]"
    "dropWhile isDigit [digitChar d1, digitChar d0] = []"
    by (simp_all add: digitChar_props assms)
  have dv: "decimalValue (digits a @ [digitChar d1, digitChar d0]) = 100 * a + 10 * d1 + d0"
  proof -
    have "decimalValue ((digits a @ [digitChar d1]) @ [digitChar d0]) =
        10 * (10 * decimalValue (digits a) + digitVal (digitChar d1)) + digitVal (digitChar d0)"
      by (simp only: decimalValue_append)
    then show ?thesis
      by (simp add: decimalValue_digits digitChar_props assms)
  qed
  have dg: "isDigit (digitChar d1)" "isDigit (digitChar d0)"
    by (simp_all add: digitChar_props assms)
  have "parseFloat s = Fin (of_nat (100 * a + 10 * d1 + d0) / 100)"
    using digits_nonempty [of a]
    by (simp add: parseFloat_def ws sg inf tw dw dg dv exponentPart_def Let_def)
  then show ?thesis by (simp add: s_def)
qed

lemma fracDigits_hundredths:
  assumes "0 < r" "r < 100"
  shows "fracDigits 20 (of_nat r / 100) =
     digitChar (r div 10) # (if r mod 10 = 0 then [] else [digitChar (r mod 10)])"
proof -
  have f1: "\<lfloor>rat_of_nat r / 10\<rfloor> = int (r div 10)"
  proof -
    have "rat_of_nat r / 10 = of_nat r / of_nat 10" by simp
    then show ?thesis by (simp only: floor_divide_of_nat_eq)
  qed
  have rest: "rat_of_nat r / 10 - of_nat (r div 10) = of_nat (r mod 10) / 10"
  proof -
    have "rat_of_nat r = of_nat (10 * (r div 10) + r mod 10)" by simp
    also have "\<dots> = 10 * of_nat (r div 10) + of_nat (r mod 10)"
      by (simp only: of_nat_add of_nat_mult of_nat_numeral)
    finally have "rat_of_nat r = 10 * of_nat (r div 10) + of_nat (r mod 10)" .
    then show ?thesis by (simp add: field_simps)
  qed
  have f2: "\<lfloor>10 * (rat_of_nat (r mod 10) / 10)\<rfloor> = int (r mod 10)" by simp
  have step1: "fracDigits 20 (of_nat r / 100) =
      digitChar (r div 10) # fracDigits 19 (of_nat (r mod 10) / 10)"
    using assms by (subst fracDigits.simps) (simp add: f1 rest)
  show ?thesis
  proof (cases "r mod 10 = 0")
    case True
    then show ?thesis
      by (simp add: step1) (subst fracDigits.simps, simp)
  next
    case False
    have "fracDigits 19 (of_nat (r mod 10) / 10) = digitChar (r mod 10) # fracDigits 18 0"
      using False by (subst fracDigits.simps) (simp add: f2)
    moreover have "fracDigits 18 0 = []"
      by (subst fracDigits.simps) simp
    ultimately show ?thesis using False by (simp add: step1)
  qed
qed

lemma numToString_hundredths: "numToString (Fin (of_nat n / 100)) = shortestHundredths n"
proof -
  define q where "q = rat_of_nat n / 100"
  have q0: "0 \<le> q" by (simp add: q_def)
  have ip: "\<lfloor>q\<rfloor> = int (n div 100)"
  proof -
    have "q = of_nat n / of_nat 100" by (simp add: q_def)
    then show ?thesis by (simp only: floor_divide_of_nat_eq)
  qed
  have fr: "q - of_int \<lfloor>q\<rfloor> = of_nat (n mod 100) / 100"
  proof -
    have "rat_of_nat n = of_nat (100 * (n div 100) + n mod 100)" by simp
    also have "\<dots> = 100 * of_nat (n div 100) + of_nat (n mod 100)"
      by (simp only: of_nat_add of_nat_mult of_nat_numeral)
    finally have "rat_of_nat n = 100 * of_nat (n div 100) + of_nat (n mod 100)" .
    then have "q - of_nat (n div 100) = of_nat (n mod 100) / 100"
      unfolding q_def by (simp add: field_simps)
    then show ?thesis by (simp add: ip)
  qed
  have d0: "n mod 100 mod 10 = n mod 10" by (simp add: mod_mod_cancel)
  have d1: "n mod 100 div 10 = n div 10 mod 10"
  proof -
    have "n mod 100 = 10 * (n div 10 mod 10) + n mod 10"
      using mod_mult2_eq [of n 10 10] by simp
    then show ?thesis by simp
  qed
  have main: "numToString (Fin q) =
      digits (nat \<lfloor>q\<rfloor>) @
        (if q - of_int \<lfloor>q\<rfloor> = 0 then [] else js ''.'' @ fracDigits 20 (q - of_int \<lfloor>q\<rfloor>))"
    using q0 by (simp add: numToString_def Let_def)
  have nip: "nat \<lfloor>q\<rfloor> = n div 100" by (simp add: ip)
  have "numToString (Fin q) = shortestHundredths n"
  proof (cases "n mod 100 = 0")
    case True
    then have "q - of_int \<lfloor>q\<rfloor> = 0" by (simp add: fr)
    then show ?thesis
      unfolding main nip using True by (simp add: shortestHundredths_def)
  next
    case False
    then have nz: "q - of_int \<lfloor>q\<rfloor> \<noteq> 0" by (simp add: fr)
    have "fracDigits 20 (q - of_int \<lfloor>q\<rfloor>) =
        digitChar (n div 10 mod 10) # (if n mod 10 = 0 then [] else [digitChar (n mod 10)])"
      unfolding fr using False fracDigits_hundredths [of "n mod 100"] by (simp add: d1 d0)
    then show ?thesis
      unfolding main nip using False nz by (simp add: shortestHundredths_def)
  qed
  then show ?thesis by (simp add: q_def)
qed
lemma hundredths_digits: "100 * (n div 100) + 10 * (n div 10 mod 10) + n mod 10 = (n::nat)"
proof -
  have "n mod 100 = 10 * (n div 10 mod 10) + n mod 10"
    using mod_mult2_eq [of n 10 10] by simp
  moreover have "n = 100 * (n div 100) + n mod 100" by simp
  ultimately show ?thesis by linarith
qed

text \<open>
  \<^verbatim>\<open>parseFloat(x.toFixed(2))\<close> printed again: the nearest hundredth of \<open>x\<close> in its
  shortest form.
\<close>

lemma shortest_pipeline:
  assumes "0 \<le> q" "q < 10 ^ 21"
  shows "numToString (parseFloat (toFixed 2 (Fin q))) = shortestHundredths (roundHundredths q)"
proof -
  define n where "n = roundHundredths q"
  have "parseFloat (toFixed 2 (Fin q)) =
      Fin (of_nat (100 * (n div 100) + 10 * (n div 10 mod 10) + n mod 10) / 100)"
    unfolding toFixed_2 [OF assms] n_def [symmetric]
    by (rule parseFloat_fixed) simp_all
  then have "parseFloat (toFixed 2 (Fin q)) = Fin (of_nat n / 100)"
    by (simp only: hundredths_digits)
  then show ?thesis
    by (simp only: numToString_hundredths n_def)
qed

lemma roundHundredths_nat:
  assumes "0 < b"
  shows "roundHundredths (of_nat a / of_nat b) = (200 * a + b) div (2 * b)"
proof -
  have "rat_of_nat a / of_nat b * 100 + 1 / 2 = of_nat (200 * a + b) / of_nat (2 * b)"
    using assms by (simp add: field_simps)
  then have "\<lfloor>rat_of_nat a / of_nat b * 100 + 1 / 2\<rfloor> = int ((200 * a + b) div (2 * b))"
    by (simp only: floor_divide_of_nat_eq)
  then show ?thesis
    by (simp add: roundHundredths_def)
qed

section \<open>\<^verbatim>\<open>formatBytes\<close>\<close>

lemma exactLog_bounds:
  assumes "0 < n"
  shows "1024 ^ exactLog 1024 n \<le> n" "n < 1024 ^ (exactLog 1024 n + 1)"
proof -
  have pos: "0 < floorlog 1024 n"
    using assms by (simp add: floorlog_def)
  from floorlog_bounds [of n 1024] assms
  have "1024 ^ (floorlog 1024 n - 1) \<le> n" "n < 1024 ^ floorlog 1024 n" by simp_all
  with pos show "1024 ^ exactLog 1024 n \<le> n" "n < 1024 ^ (exactLog 1024 n + 1)"
    by (simp_all add: exactLog_def)
qed

text \<open>The exact logarithm is the floor of the quotient of the natural logarithms.\<close>

lemma exactLog_ln:
  assumes "0 < n"
  shows "exactLog 1024 n = nat \<lfloor>ln (real n) / ln 1024\<rfloor>"
  using assms by (simp add: exactLog_def floorlog_def log_def)

lemma exactLog_unique:
  assumes "1024 ^ i \<le> n" "n < 1024 ^ (i + 1)"
  shows "exactLog 1024 n = i"
proof -
  have n: "0 < n"
    using assms(1) by (metis gr0I not_less_eq_eq power_eq_0_iff zero_neq_numeral le_zero_eq)
  let ?j = "exactLog 1024 n"
  have "\<not> ?j < i"
  proof
    assume "?j < i"
    then have "?j + 1 \<le> i" by simp
    then have "(1024::nat) ^ (?j + 1) \<le> 1024 ^ i"
      by (intro power_increasing) simp_all
    with exactLog_bounds(2) [OF n] assms(1) show False by linarith
  qed
  moreover have "\<not> i < ?j"
  proof
    assume "i < ?j"
    then have "i + 1 \<le> ?j" by simp
    then have "(1024::nat) ^ (i + 1) \<le> 1024 ^ ?j"
      by (intro power_increasing) simp_all
    with exactLog_bounds(1) [OF n] assms(2) show False by linarith
  qed
  ultimately show ?thesis by linarith
qed

text \<open>
  The index of the program is the exact logarithm away from the three integers below
  \<open>1024 ^ 5\<close>, and 5 at them.
\<close>

lemma floor_log_exact:
  "\<not> (1024 ^ 5 - 3 \<le> n \<and> n < 1024 ^ 5) \<Longrightarrow> floor_log 1024 n = exactLog 1024 n"
  unfolding floor_log_def exactLog_def by (rule if_not_P) simp

lemma floor_log_rounded:
  "1024 ^ 5 - 3 \<le> n \<Longrightarrow> n < 1024 ^ 5 \<Longrightarrow> floor_log 1024 n = 5"
  by (simp add: floor_log_def)

lemma floor_log_unique:
  assumes "1024 ^ i \<le> n" "n < 1024 ^ (i + 1)" "\<not> (1024 ^ 5 - 3 \<le> n \<and> n < 1024 ^ 5)"
  shows "floor_log 1024 n = i"
  by (simp only: floor_log_exact [OF assms(3)] exactLog_unique [OF assms(1,2)])

lemma formatBytes_pos:
  assumes "0 < bytes"
  shows "formatBytes bytes 2 =
     shortestHundredths (roundHundredths (of_nat bytes / of_nat (1024 ^ floor_log 1024 bytes)))
     @ js '' '' @ elemText sizes (floor_log 1024 bytes)"
proof -
  define i where "i = floor_log 1024 bytes"
  define q where "q = rat_of_nat bytes / of_nat (1024 ^ i)"
  have b: "bytes < 1024 ^ (i + 1)"
  proof (cases "1024 ^ 5 - 3 \<le> bytes \<and> bytes < 1024 ^ 5")
    case True
    then have "i = 5" by (simp add: i_def floor_log_rounded)
    with True show ?thesis by simp
  next
    case False
    then show ?thesis
      using exactLog_bounds(2) [OF assms] by (simp add: i_def floor_log_exact)
  qed
  have q0: "0 \<le> q" by (simp add: q_def)
  have "rat_of_nat bytes < of_nat (1024 ^ (i + 1))"
    using b by (simp only: of_nat_less_iff)
  then have "q < 1024"
    by (simp add: q_def field_simps)
  then have q1: "q < 10 ^ 21" by simp
  have "formatBytes bytes 2 =
      numToString (parseFloat (toFixed 2 (Fin q))) @ js '' '' @ elemText sizes i"
    using assms by (simp add: formatBytes_def Let_def i_def q_def)
  then show ?thesis
    by (simp only: shortest_pipeline [OF q0 q1]) (simp add: q_def i_def)
qed

lemma formatBytes_index:
  assumes "0 < bytes" "floor_log 1024 bytes = i"
  shows "formatBytes bytes 2 =
     shortestHundredths ((200 * bytes + 1024 ^ i) div (2 * 1024 ^ i)) @ js '' '' @ elemText sizes i"
proof -
  have p: "0 < (1024::nat) ^ i" by simp
  show ?thesis
    by (simp only: formatBytes_pos [OF assms(1)] assms(2) roundHundredths_nat [OF p])
qed

lemma formatBytes_at:
  assumes "1024 ^ i \<le> bytes" "bytes < 1024 ^ (i + 1)"
    "\<not> (1024 ^ 5 - 3 \<le> bytes \<and> bytes < 1024 ^ 5)"
  shows "formatBytes bytes 2 =
     shortestHundredths ((200 * bytes + 1024 ^ i) div (2 * 1024 ^ i)) @ js '' '' @ elemText sizes i"
proof -
  have n: "0 < bytes"
    using assms(1) by (metis gr0I not_less_eq_eq power_eq_0_iff zero_neq_numeral le_zero_eq)
  show ?thesis
    by (rule formatBytes_index [OF n floor_log_unique [OF assms]])
qed

lemma sizes_index: "i < 5 \<Longrightarrow> elemText sizes i = sizes ! i" "5 \<le> i \<Longrightarrow> elemText sizes i = js ''undefined''"
  by (simp_all add: elemText_def sizes_def)

lemma formatBytes_1536: "formatBytes 1536 2 = js ''1.5 KB''"
proof -
  have "formatBytes 1536 2 =
     shortestHundredths ((200 * 1536 + 1024 ^ 1) div (2 * 1024 ^ 1)) @ js '' '' @ elemText sizes 1"
    by (rule formatBytes_at) simp_all
  then show ?thesis
    by (simp add: shortestHundredths_def digits_eval elemText_def sizes_def js_def)
qed

lemma formatBytes_1TB: "formatBytes 1099511627776 2 = js ''1 TB''"
proof -
  have "formatBytes 1099511627776 2 =
     shortestHundredths ((200 * 1099511627776 + 1024 ^ 4) div (2 * 1024 ^ 4))
       @ js '' '' @ elemText sizes 4"
    by (rule formatBytes_at) simp_all
  then show ?thesis
    by (simp add: shortestHundredths_def digits_eval elemText_def sizes_def js_def)
qed

lemma formatBytes_2PB: "formatBytes 2251799813685248 2 = js ''2 undefined''"
proof -
  have "formatBytes 2251799813685248 2 =
     shortestHundredths ((200 * 2251799813685248 + 1024 ^ 5) div (2 * 1024 ^ 5))
       @ js '' '' @ elemText sizes 5"
    by (rule formatBytes_at) simp_all
  then show ?thesis
    by (simp add: shortestHundredths_def digits_eval elemText_def sizes_def js_def)
qed

lemma formatBytes_below_1PB: "formatBytes 1125899906842623 2 = js ''1 undefined''"
proof -
  have i: "floor_log 1024 1125899906842623 = 5"
    by (rule floor_log_rounded) simp_all
  have "formatBytes 1125899906842623 2 =
     shortestHundredths ((200 * 1125899906842623 + 1024 ^ 5) div (2 * 1024 ^ 5))
       @ js '' '' @ elemText sizes 5"
    by (rule formatBytes_index [OF _ i]) simp
  then show ?thesis
    by (simp add: shortestHundredths_def digits_eval elemText_def sizes_def js_def)
qed

text \<open>
  Where the index of the program is the exact logarithm, \<^verbatim>\<open>formatBytes\<close> does what the
  specification says: for a positive byte count away from the three integers below
  \<open>1024 ^ 5\<close> the unit index is \<open>\<lfloor>ln bytes / ln 1024\<rfloor>\<close>, the one \<open>i\<close> with
  \<open>1024 ^ i \<le> bytes < 1024 ^ (i + 1)\<close>; the result is \<open>bytes / 1024 ^ i\<close> rounded to
  hundredths and printed in its shortest form, a space, and the entry of the unit table at
  that index, one of the five units below \<open>1024 ^ 5\<close>.
\<close>

lemma formatBytes_zero: "formatBytes 0 2 = js ''0 Bytes''"
  by (simp add: formatBytes_def)

lemma formatBytes_exact_index:
  assumes p: "0 < bytes" and e: "\<not> (1024 ^ 5 - 3 \<le> bytes \<and> bytes < 1024 ^ 5)"
  shows "floor_log 1024 bytes = nat \<lfloor>ln (real bytes) / ln 1024\<rfloor>"
    and "1024 ^ floor_log 1024 bytes \<le> bytes"
    and "bytes < 1024 ^ (floor_log 1024 bytes + 1)"
    and "formatBytes bytes 2 =
          shortestHundredths (roundHundredths (of_nat bytes / of_nat (1024 ^ floor_log 1024 bytes)))
          @ js '' '' @ elemText sizes (floor_log 1024 bytes)"
    and "bytes < 1024 ^ 5 \<Longrightarrow> floor_log 1024 bytes < 5"
    and "bytes < 1024 ^ 5 \<Longrightarrow>
          elemText sizes (floor_log 1024 bytes) = sizes ! floor_log 1024 bytes"
proof -
  show "floor_log 1024 bytes = nat \<lfloor>ln (real bytes) / ln 1024\<rfloor>"
    by (simp only: floor_log_exact [OF e] exactLog_ln [OF p])
  show "1024 ^ floor_log 1024 bytes \<le> bytes" "bytes < 1024 ^ (floor_log 1024 bytes + 1)"
    using exactLog_bounds [OF p] by (simp_all only: floor_log_exact [OF e])
  show "formatBytes bytes 2 =
          shortestHundredths (roundHundredths (of_nat bytes / of_nat (1024 ^ floor_log 1024 bytes)))
          @ js '' '' @ elemText sizes (floor_log 1024 bytes)"
    by (rule formatBytes_pos [OF p])
  show i: "floor_log 1024 bytes < 5" if s: "bytes < 1024 ^ 5"
  proof (rule ccontr)
    assume "\<not> floor_log 1024 bytes < 5"
    then have "(1024::nat) ^ 5 \<le> 1024 ^ exactLog 1024 bytes"
      by (simp only: floor_log_exact [OF e]) (intro power_increasing, simp_all)
    with exactLog_bounds(1) [OF p] s show False by linarith
  qed
  show "elemText sizes (floor_log 1024 bytes) = sizes ! floor_log 1024 bytes"
    if s: "bytes < 1024 ^ 5"
    by (rule sizes_index(1) [OF i [OF s]])
qed

text \<open>
  Claim C8 does not hold of the code at the three byte counts below \<open>1024 ^ 5\<close>. At
  1125899906842623 bytes, one less than \<open>1024 ^ 5\<close>, the index \<open>\<lfloor>ln bytes / ln 1024\<rfloor>\<close>
  that the claim prescribes is 4, the unit TB. The quotient of the two logarithms is 5 in
  doubles: the program takes the index 5, scales by \<open>1024 ^ 5\<close>, reads past the unit table
  and returns \<^verbatim>\<open>"1 undefined"\<close>. Elsewhere the claim holds, by \<open>formatBytes_zero\<close>,
  \<open>formatBytes_exact_index\<close>, \<open>formatBytes_1536\<close> and \<open>formatBytes_1TB\<close>.
\<close>

theorem formatBytes_log_rounding:
  "1024 ^ 4 \<le> (1125899906842623::nat) \<and> (1125899906842623::nat) < 1024 ^ 5
   \<and> exactLog 1024 1125899906842623 = 4
   \<and> nat \<lfloor>ln (real 1125899906842623) / ln 1024\<rfloor> = 4
   \<and> floor_log 1024 1125899906842623 = 5
   \<and> formatBytes 1125899906842623 2 = js ''1 undefined''"
proof -
  have e: "exactLog 1024 1125899906842623 = 4"
    by (rule exactLog_unique) simp_all
  have l: "nat \<lfloor>ln (real 1125899906842623) / ln 1024\<rfloor> = 4"
    using exactLog_ln [of 1125899906842623] e by simp
  have i: "floor_log 1024 1125899906842623 = 5"
    by (rule floor_log_rounded) simp_all
  from e l i formatBytes_below_1PB show ?thesis by simp
qed

text \<open>
  Claim C7 does not hold of the code. The unit index is not clamped: from \<open>1024 ^ 5\<close>
  bytes on it is 5 or more, the read of the five-entry unit table is out of range, and the
  text ends in "undefined". At 2251799813685248 bytes (2 PiB) the result is
  \<^verbatim>\<open>"2 undefined"\<close>.
\<close>

theorem formatBytes_unit_overflow:
  "floor_log 1024 2251799813685248 = 5 \<and> length sizes = 5
   \<and> formatBytes 2251799813685248 2 = js ''2 undefined''"
proof -
  have "floor_log 1024 2251799813685248 = 5"
    by (rule floor_log_unique) simp_all
  then show ?thesis
    by (simp add: formatBytes_2PB sizes_def)
qed

section \<open>\<^verbatim>\<open>formatDuration\<close>\<close>

lemma includes_colon: "includes_str d (js '':'') \<longleftrightarrow> 0x3A \<in> set d"
proof -
  have "js '':'' = [0x3A]" by (simp add: js_def)
  then show ?thesis by (induction d) auto
qed

lemma formatDuration_unusable:
  "\<not> usableStr3 ds3 \<Longrightarrow> formatDuration v ds3 = formatDuration v None"
  by (auto simp: formatDuration_def usableStr3_def includes_colon split: option.splits)

lemma split_first: "elemText (split sep d) 0 = takeWhile (\<lambda>c. c \<noteq> sep) d"
proof -
  have "split sep d \<noteq> [] \<and> hd (split sep d) = takeWhile (\<lambda>c. c \<noteq> sep) d"
    by (induction d) (auto split: list.splits)
  then show ?thesis
    by (cases "split sep d") (simp_all add: elemText_def)
qed

lemma formatDuration_usable:
  "d \<noteq> [] \<Longrightarrow> 0x3A \<in> set d \<Longrightarrow>
     formatDuration v (Some d) = takeWhile (\<lambda>c. c \<noteq> 0x2E) d"
  by (simp add: formatDuration_def includes_colon split_first)

lemma parseFloat_Nil: "parseFloat [] = NaN"
  by (simp add: parseFloat_def signPart_def js_def)

lemma js_floor_div_nat:
  "0 < c \<Longrightarrow> js_floor (js_div (Fin (of_nat t)) (of_nat c)) = Fin (of_nat (t div c))"
  by (simp add: floor_divide_of_nat_eq)

lemma js_rem_nat:
  assumes "0 < c"
  shows "js_rem (Fin (of_nat t)) (of_nat c) = Fin (of_nat (t mod c))"
proof -
  have "rat_of_nat t = of_nat (c * (t div c) + t mod c)" by simp
  also have "\<dots> = of_nat c * of_nat (t div c) + of_nat (t mod c)"
    by (simp only: of_nat_add of_nat_mult)
  finally have "rat_of_nat t - of_nat c * of_nat (t div c) = of_nat (t mod c)" by simp
  then show ?thesis
    by (simp add: floor_divide_of_nat_eq)
qed

lemma minutes_nat:
  "js_floor (js_rem (js_div (Fin (of_nat t)) 60) 60) = Fin (of_nat (t div 60 mod 60))"
proof -
  define a where "a = rat_of_nat t / 60"
  have a0: "0 \<le> a" by (simp add: a_def)
  have fa: "\<lfloor>a\<rfloor> = int (t div 60)"
  proof -
    have "a = of_nat t / of_nat 60" by (simp add: a_def)
    then show ?thesis by (simp only: floor_divide_of_nat_eq)
  qed
  have fb: "\<lfloor>a / 60\<rfloor> = int (t div 60 div 60)"
  proof -
    have "a / 60 = of_nat t / of_nat 3600" by (simp add: a_def)
    then have "\<lfloor>a / 60\<rfloor> = int (t div 3600)" by (simp only: floor_divide_of_nat_eq)
    then show ?thesis by (simp add: div_mult2_eq [symmetric])
  qed
  have "\<lfloor>a - 60 * of_int \<lfloor>a / 60\<rfloor>\<rfloor> = \<lfloor>a\<rfloor> - 60 * \<lfloor>a / 60\<rfloor>"
  proof -
    have "a - 60 * of_int \<lfloor>a / 60\<rfloor> = a - of_int (60 * \<lfloor>a / 60\<rfloor>)" by simp
    then show ?thesis by (simp only: floor_diff_of_int)
  qed
  also have "\<dots> = int (t div 60) - 60 * int (t div 60 div 60)"
    by (simp only: fa fb)
  also have "\<dots> = int (t div 60 mod 60)"
    by (simp add: minus_mult_div_eq_mod [symmetric] of_nat_diff)
  finally have "\<lfloor>a - 60 * of_int \<lfloor>a / 60\<rfloor>\<rfloor> = int (t div 60 mod 60)" .
  moreover have "js_floor (js_rem (js_div (Fin (of_nat t)) 60) 60) =
      Fin (of_int \<lfloor>a - 60 * of_int \<lfloor>a / 60\<rfloor>\<rfloor>)"
    using a0 by (simp add: a_def)
  ultimately show ?thesis by simp
qed
lemma floor_numeral_div: "\<lfloor>numeral a / numeral b :: rat\<rfloor> = numeral a div numeral b"
  using floor_divide_of_int_eq [of "numeral a" "numeral b", where ?'a = rat] by simp

lemma seconds_nat: "js_rem (Fin (of_nat t)) 60 = Fin (of_nat (t mod 60))"
  using js_rem_nat [of 60 t] by simp

lemma hours_nat: "js_floor (js_div (Fin (of_nat t)) 3600) = Fin (of_nat (t div 3600))"
  using js_floor_div_nat [of 3600 t] by simp

lemma totalSeconds_nat:
  assumes "0 < q"
  shows "(if js_floor (js_div (Fin q) 1000) = Fin 0 \<and> js_gt (Fin q) 0 then js_floor (Fin q)
          else js_floor (js_div (Fin q) 1000)) = Fin (of_nat (totalSecondsOf q))"
proof -
  have "0 \<le> \<lfloor>q\<rfloor>" "0 \<le> \<lfloor>q / 1000\<rfloor>"
    using assms by simp_all
  then have "rat_of_nat (nat \<lfloor>q\<rfloor>) = of_int \<lfloor>q\<rfloor>"
    "rat_of_nat (nat \<lfloor>q / 1000\<rfloor>) = of_int \<lfloor>q / 1000\<rfloor>"
    by (simp_all only: of_nat_nat)
  then show ?thesis
    using assms by (simp add: totalSecondsOf_def)
qed

text \<open>The clock text that the body of \<^verbatim>\<open>formatDuration\<close> builds from whole seconds.\<close>

lemma clock_text:
  "(let totalSeconds = Fin (of_nat t);
        seconds = js_rem totalSeconds 60;
        minutes = js_floor (js_rem (js_div totalSeconds 60) 60);
        hours = js_floor (js_div totalSeconds 3600);
        h = (if js_gt hours 0 then numToString hours @ js '':'' else []);
        m = (if js_gt hours 0
             then (if js_lt minutes 10 then js ''0'' @ numToString minutes @ js '':''
                   else numToString minutes @ js '':'')
             else numToString minutes @ js '':'');
        s = (if js_lt seconds 10 then js ''0'' @ numToString seconds
             else numToString seconds)
    in h @ m @ s) = clock t"
  unfolding Let_def seconds_nat minutes_nat hours_nat
  by (simp add: numToString_nat clock_def pad2_def)

lemma truthy_positive:
  assumes "parseFloatV (Some v) = Fin q" "0 < q"
  shows "truthyV v"
proof (cases v)
  case (JStr s)
  with assms have "s \<noteq> []"
    by (auto simp: parseFloatV_def parseFloat_Nil)
  with JStr show ?thesis by (simp add: truthyV_def)
next
  case (JNum x)
  with assms show ?thesis by (simp add: parseFloatV_def truthyV_def truthyN_def)
qed

lemma formatDuration_None_positive:
  assumes "parseFloatV (Some v) = Fin q" "0 < q"
  shows "formatDuration v None = clock (totalSecondsOf q)"
proof -
  have "formatDuration v None =
     (let totalSeconds = (if js_floor (js_div (Fin q) 1000) = Fin 0 \<and> js_gt (Fin q) 0
                          then js_floor (Fin q) else js_floor (js_div (Fin q) 1000));
        seconds = js_rem totalSeconds 60;
        minutes = js_floor (js_rem (js_div totalSeconds 60) 60);
        hours = js_floor (js_div totalSeconds 3600);
        h = (if js_gt hours 0 then numToString hours @ js '':'' else []);
        m = (if js_gt hours 0
             then (if js_lt minutes 10 then js ''0'' @ numToString minutes @ js '':''
                   else numToString minutes @ js '':'')
             else numToString minutes @ js '':'');
        s = (if js_lt seconds 10 then js ''0'' @ numToString seconds
             else numToString seconds)
    in h @ m @ s)"
    using truthy_positive [OF assms] assms
    by (simp add: formatDuration_def isNaN_def Let_def)
  also have "\<dots> = clock (totalSecondsOf q)"
    unfolding totalSeconds_nat [OF assms(2)] by (rule clock_text)
  finally show ?thesis .
qed

lemma formatDuration_None_unusable:
  assumes "parseFloatV (Some v) = NaN \<or> js_le (parseFloatV (Some v)) 0"
  shows "formatDuration v None = unknown"
  using assms by (auto simp: formatDuration_def isNaN_def Let_def)

text \<open>
  The raw path of \<^verbatim>\<open>formatDuration\<close>, taken when there is no usable preformatted string:
  a value that parses to \<^verbatim>\<open>NaN\<close> or to a number that is not positive gives the sentinel;
  a finite positive value is read as milliseconds (as seconds below one second) and
  printed as a clock text.
\<close>

lemma formatDuration_raw:
  assumes "\<not> usableStr3 ds3"
  shows "(parseFloatV (Some v) = NaN \<or> js_le (parseFloatV (Some v)) 0 \<longrightarrow>
            formatDuration v ds3 = unknown)
       \<and> (\<forall>q. parseFloatV (Some v) = Fin q \<and> 0 < q \<longrightarrow>
            formatDuration v ds3 = clock (totalSecondsOf q))"
  using formatDuration_None_positive [of v] formatDuration_None_unusable [of v]
  by (simp add: formatDuration_unusable [OF assms])

lemma clock_samples:
  "clock 135 = js ''2:15''" "clock 45 = js ''0:45''" "clock 7400 = js ''2:03:20''"
  by (simp_all add: clock_def pad2_def digits_eval js_def)

lemma totalSecondsOf_samples:
  "totalSecondsOf 135000 = 135" "totalSecondsOf 45 = 45" "totalSecondsOf 7400000 = 7400"
  by (simp_all add: totalSecondsOf_def floor_numeral_div)

lemma formatDuration_samples:
  "formatDuration (JNum (Fin 135000)) None = js ''2:15''"
  "formatDuration (JNum (Fin 45)) None = js ''0:45''"
  "formatDuration (JNum (Fin 7400000)) None = js ''2:03:20''"
proof -
  have p: "parseFloatV (Some (JNum (Fin q))) = Fin q" for q
    by (simp add: parseFloatV_def)
  show "formatDuration (JNum (Fin 135000)) None = js ''2:15''"
    using formatDuration_None_positive [OF p, of 135000]
    by (simp add: totalSecondsOf_samples clock_samples)
  show "formatDuration (JNum (Fin 45)) None = js ''0:45''"
    using formatDuration_None_positive [OF p, of 45]
    by (simp add: totalSecondsOf_samples clock_samples)
  show "formatDuration (JNum (Fin 7400000)) None = js ''2:03:20''"
    using formatDuration_None_positive [OF p, of 7400000]
    by (simp add: totalSecondsOf_samples clock_samples)
qed

lemma parseFloat_Infinity: "parseFloat (js ''Infinity'') = PosInf"
  by (simp add: parseFloat_def signPart_def isWhiteSpace_def js_def)

text \<open>
  Claim C4 does not hold of the code at an infinite raw value. The guard of
  \<^verbatim>\<open>formatDuration\<close> rejects \<^verbatim>\<open>NaN\<close> and numbers that are not positive, and lets
  \<^verbatim>\<open>Infinity\<close> through: the text \<^verbatim>\<open>"Infinity"\<close> parses to it, it is not a usable positive
  number, and the result is neither the sentinel nor a clock text. For every other value
  the claim holds, by \<open>formatDuration_raw\<close> and \<open>formatDuration_samples\<close>.
\<close>

theorem formatDuration_infinite:
  "parseFloatV (Some (JStr (js ''Infinity''))) = PosInf
   \<and> formatDuration (JStr (js ''Infinity'')) None = js ''Infinity:NaN:NaN''
   \<and> formatDuration (JStr (js ''Infinity'')) None \<noteq> unknown"
proof -
  have p: "parseFloatV (Some (JStr (js ''Infinity''))) = PosInf"
    by (simp add: parseFloatV_def parseFloat_Infinity)
  have t: "truthyV (JStr (js ''Infinity''))"
    by (simp add: truthyV_def js_def)
  have f: "formatDuration (JStr (js ''Infinity'')) None = js ''Infinity:NaN:NaN''"
    using p t by (simp add: formatDuration_def isNaN_def Let_def numToString_def js_def)
  moreover have "js ''Infinity:NaN:NaN'' \<noteq> unknown"
    by (simp add: js_def unknown_def)
  ultimately show ?thesis using p by simp
qed

section \<open>The source of the duration\<close>

lemma duration_field:
  "analyzeVideo fmt f (Returned result) = Inr r \<Longrightarrow>
     duration r =
       formatDuration
         (case orV (orV (field (findTrack result (js ''General'')) Duration)
                        (field (findTrack result (js ''Video'')) Duration))
                   (field (findTrack result (js ''Audio'')) Duration) of
            Some d \<Rightarrow> if truthyV d then d
                      else JNum (if length (durationsOf result) > 0
                                 then js_max_list (durationsOf result) else Fin 0)
          | None \<Rightarrow> JNum (if length (durationsOf result) > 0
                           then js_max_list (durationsOf result) else Fin 0))
         (orS (orS (field (findTrack result (js ''General'')) Duration_String3)
                   (field (findTrack result (js ''Video'')) Duration_String3))
              (field (findTrack result (js ''Audio'')) Duration_String3))"
  by (auto simp: analyzeVideo_def Let_def split: if_splits)

lemma orS_usable:
  "usableStr3 (orS (orS a b) c) \<longleftrightarrow> (\<exists>d. firstTruthyS [a, b, c] = Some d \<and> 0x3A \<in> set d)"
  by (cases a; cases b; cases c) (auto simp: orS_def usableStr3_def)

lemma orS_first:
  "firstTruthyS [a, b, c] = Some d \<Longrightarrow> orS (orS a b) c = Some d"
  by (cases a; cases b; cases c) (auto simp: orS_def split: if_splits)

lemma firstTruthyS_nonempty: "firstTruthyS xs = Some d \<Longrightarrow> d \<noteq> []"
  by (induction xs rule: firstTruthyS.induct) (auto split: if_splits)

lemma orV_first:
  "(case orV (orV a b) c of Some d \<Rightarrow> if truthyV d then d else JNum m | None \<Rightarrow> JNum m) =
     (case firstTruthyV [a, b, c] of Some d \<Rightarrow> d | None \<Rightarrow> JNum m)"
  by (cases a; cases b; cases c) (auto simp: orV_def)

text \<open>\<^verbatim>\<open>Math.max\<close> over a non-empty list without \<^verbatim>\<open>NaN\<close> is its greatest element.\<close>

lemma num_le_refl: "x \<noteq> NaN \<Longrightarrow> num_le x x"
  by (cases x) simp_all

lemma num_le_trans: "num_le x y \<Longrightarrow> num_le y z \<Longrightarrow> num_le x z"
  by (cases x; cases y; cases z) simp_all

lemma js_max_cases: "x \<noteq> NaN \<Longrightarrow> y \<noteq> NaN \<Longrightarrow> js_max x y = x \<or> js_max x y = y"
  by (cases x; cases y) (auto simp: max_def)

lemma js_max_upper:
  "x \<noteq> NaN \<Longrightarrow> y \<noteq> NaN \<Longrightarrow> num_le x (js_max x y) \<and> num_le y (js_max x y)"
  by (cases x; cases y) simp_all

lemma foldl_js_max:
  assumes "acc \<noteq> NaN" "\<forall>d \<in> set xs. d \<noteq> NaN"
  shows "foldl js_max acc xs \<in> insert acc (set xs)
       \<and> num_le acc (foldl js_max acc xs)
       \<and> (\<forall>d \<in> set xs. num_le d (foldl js_max acc xs))"
  using assms
proof (induction xs arbitrary: acc)
  case Nil
  then show ?case by (simp add: num_le_refl)
next
  case (Cons x xs)
  then have x: "x \<noteq> NaN" by simp
  from js_max_cases [OF Cons.prems(1) x] have m: "js_max acc x \<noteq> NaN"
    using Cons.prems(1) x by auto
  from Cons.prems have "\<forall>d \<in> set xs. d \<noteq> NaN" by simp
  from Cons.IH [OF m this]
  have ih: "foldl js_max (js_max acc x) xs \<in> insert (js_max acc x) (set xs)"
    "num_le (js_max acc x) (foldl js_max (js_max acc x) xs)"
    "\<forall>d \<in> set xs. num_le d (foldl js_max (js_max acc x) xs)"
    by simp_all
  from js_max_upper [OF Cons.prems(1) x]
  have u: "num_le acc (js_max acc x)" "num_le x (js_max acc x)" by simp_all
  let ?F = "foldl js_max (js_max acc x) xs"
  have 1: "?F \<in> insert acc (set (x # xs))"
    using ih(1) js_max_cases [OF Cons.prems(1) x] by auto
  have 2: "num_le acc ?F"
    by (rule num_le_trans [OF u(1) ih(2)])
  have 3: "num_le x ?F"
    by (rule num_le_trans [OF u(2) ih(2)])
  from 1 2 3 ih(3) show ?case by simp
qed

lemma js_max_list_greatest:
  assumes "xs \<noteq> []" "\<forall>d \<in> set xs. d \<noteq> NaN"
  shows "js_max_list xs \<in> set xs \<and> (\<forall>d \<in> set xs. num_le d (js_max_list xs))"
proof -
  from foldl_js_max [of NegInf xs] assms(2)
  have a: "js_max_list xs \<in> insert NegInf (set xs)"
    and b: "\<forall>d \<in> set xs. num_le d (js_max_list xs)"
    by (simp_all add: js_max_list_def)
  obtain x where x: "x \<in> set xs" using assms(1) by (cases xs) auto
  have "js_max_list xs \<in> set xs"
  proof (cases "js_max_list xs = NegInf")
    case True
    with b x have "num_le x NegInf" by auto
    moreover have "x \<noteq> NaN" using assms(2) x by auto
    ultimately have "x = NegInf" by (cases x) simp_all
    with x True show ?thesis by simp
  next
    case False
    with a show ?thesis by simp
  qed
  with b show ?thesis by simp
qed

lemma durationsOf_set:
  "set (durationsOf result) =
     {d. \<exists>t \<in> set (tracksOf result). d = parseFloatV (Duration t) \<and> d \<noteq> NaN \<and> js_gt d 0}"
  by (cases result) (auto simp: durationsOf_def tracksOf_def isNaN_def)
lemma videoStr3_fields:
  "at_type (videoStr3 d3) = js ''Video''" "Duration_String3 (videoStr3 d3) = Some d3"
  "Duration (videoStr3 d3) = None" "Width (videoStr3 d3) = None" "Height (videoStr3 d3) = None"
  "BitRate (videoStr3 d3) = None" "BitRate_Mode (videoStr3 d3) = None"
  "FrameRate (videoStr3 d3) = None" "FrameRate_Nominal (videoStr3 d3) = None"
  "Format (videoStr3 d3) = None" "Format_Information (videoStr3 d3) = None"
  "Format_Profile (videoStr3 d3) = None" "CodecID (videoStr3 d3) = None"
  by (simp_all add: videoStr3_def emptyTrack_def)

lemma generalDuration_fields:
  "at_type (generalDuration d3 d) = js ''General''"
  "Duration (generalDuration d3 d) = Some (JStr d)"
  "Duration_String3 (generalDuration d3 d) = Some d3"
  "Format (generalDuration d3 d) = None" "OverallBitRate (generalDuration d3 d) = None"
  "OverallBitRate_Mode (generalDuration d3 d) = None"
  by (simp_all add: generalDuration_def emptyTrack_def)

lemma getDetailedCodec_videoStr3: "getDetailedCodec (Some (videoStr3 d3)) = unknown"
  by (simp add: getDetailedCodec_def videoStr3_def codec_eval)

lemma parseInt_undefined: "parseIntV None = NaN"
  by (simp add: parseIntV_def parseInt_def parse_eval)

lemma formatDuration_five: "formatDuration (JStr (js ''5'')) None = js ''0:05''"
proof -
  have p: "parseFloatV (Some (JStr (js ''5''))) = Fin 5"
    by (simp add: parseFloatV_def parseFloat_def parse_eval)
  have f: "\<lfloor>(1::rat) / 200\<rfloor> = 0"
    by (simp add: floor_eq_iff)
  have "totalSecondsOf 5 = 5" "clock 5 = js ''0:05''"
    by (simp_all add: totalSecondsOf_def f clock_def pad2_def digits_eval js_def)
  with formatDuration_None_positive [OF p] show ?thesis by simp
qed

text \<open>
  Claim C3, as stated, fails: the General track's preformatted string \<^verbatim>\<open>"abc"\<close> has no
  colon and the Video track's \<^verbatim>\<open>"00:01:00.000"\<close> has one, so a preformatted string with a
  colon is available; yet the duration is not \<^verbatim>\<open>"00:01:00"\<close> but the General track's raw
  duration 5, printed \<^verbatim>\<open>"0:05"\<close>. The priority picks the string before the colon is
  looked for.
\<close>

theorem duration_source_counterexample:
  "analyzeVideo someDate someFile
     (Returned (Some [generalDuration (js ''abc'') (js ''5''), videoStr3 (js ''00:01:00.000'')])) =
     Inr \<lparr>name = js ''clip.mp4'', updatedDate = js ''1970/1/1 9:00:00'', size_md = js ''1.5 KB'',
          resolution = unknown, resolutionLabel = unknown, bitRate = unknown,
          bitRateMode = unknown, frameRate = unknown @ js '' fps'', duration = js ''0:05'',
          container = unknown, videoCodec = unknown, audioCodec = unknown\<rparr>
   \<and> Duration_String3 (videoStr3 (js ''00:01:00.000'')) = Some (js ''00:01:00.000'')
   \<and> includes_str (js ''00:01:00.000'') (js '':'')
   \<and> formatDuration (JStr (js ''5'')) (Some (js ''00:01:00.000'')) = js ''00:01:00''
   \<and> js ''0:05'' \<noteq> js ''00:01:00''"
proof -
  let ?g = "generalDuration (js ''abc'') (js ''5'')"
  let ?v = "videoStr3 (js ''00:01:00.000'')"
  let ?res = "Some [?g, ?v]"
  have sel: "findTrack ?res (js ''General'') = Some ?g" "findTrack ?res (js ''Video'') = Some ?v"
    "findTrack ?res (js ''Audio'') = None"
    using type_literals_distinct
    by (simp_all add: findTrack_def generalDuration_fields videoStr3_fields eq_commute)
  obtain r where r: "analyzeVideo someDate someFile (Returned ?res) = Inr r"
    using analyzeVideo_Inr_ex [of ?res someDate someFile] sel by auto
  have "name r = js ''clip.mp4''"
    by (simp add: name_field [OF r] someFile_def)
  moreover have "updatedDate r = js ''1970/1/1 9:00:00''"
    by (simp add: updatedDate_field [OF r] someDate_def)
  moreover have "size_md r = js ''1.5 KB''"
    by (simp add: size_field [OF r] someFile_def formatBytes_1536)
  moreover have "resolution r = unknown" "resolutionLabel r = unknown"
    by (simp_all add: resolution_field [OF r] resolutionLabel_field [OF r] sel videoStr3_fields
        parseInt_undefined truthyN_def)
  moreover have "bitRate r = unknown"
    by (simp add: bitRate_field [OF r] sel field_def videoStr3_fields generalDuration_fields
        orV_def)
  moreover have "bitRateMode r = unknown"
    by (simp add: bitRateMode_field [OF r] sel field_def videoStr3_fields generalDuration_fields
        orS_def orElse_def)
  moreover have "frameRate r = unknown @ js '' fps''"
    by (simp add: frameRate_field [OF r] sel videoStr3_fields)
  moreover have "duration r = js ''0:05''"
  proof -
    have ne: "js ''abc'' \<noteq> []" and nc: "0x3A \<notin> set (js ''abc'')" and t: "truthyV (JStr (js ''5''))"
      by (simp_all add: js_def truthyV_def)
    have d3: "orS (orS (field (findTrack ?res (js ''General'')) Duration_String3)
                       (field (findTrack ?res (js ''Video'')) Duration_String3))
                  (field (findTrack ?res (js ''Audio'')) Duration_String3) = Some (js ''abc'')"
      using ne by (simp add: sel field_def generalDuration_fields orS_def)
    have raw: "orV (orV (field (findTrack ?res (js ''General'')) Duration)
                        (field (findTrack ?res (js ''Video'')) Duration))
                   (field (findTrack ?res (js ''Audio'')) Duration) = Some (JStr (js ''5''))"
      using t by (simp add: sel field_def generalDuration_fields orV_def)
    have u: "\<not> usableStr3 (Some (js ''abc''))"
      using nc by (simp add: usableStr3_def)
    have "duration r = formatDuration (JStr (js ''5'')) (Some (js ''abc''))"
      unfolding duration_field [OF r] d3 raw using t by simp
    then show ?thesis
      by (simp only: formatDuration_unusable [OF u] formatDuration_five)
  qed
  moreover have "container r = unknown"
    by (simp add: container_field [OF r] sel field_def generalDuration_fields orElse_def)
  moreover have "videoCodec r = unknown" "audioCodec r = unknown"
    by (simp_all add: videoCodec_field [OF r] audioCodec_field [OF r] sel
        getDetailedCodec_videoStr3)
      (simp add: getDetailedCodec_def)
  ultimately have "r = \<lparr>name = js ''clip.mp4'', updatedDate = js ''1970/1/1 9:00:00'',
          size_md = js ''1.5 KB'',
          resolution = unknown, resolutionLabel = unknown, bitRate = unknown,
          bitRateMode = unknown, frameRate = unknown @ js '' fps'', duration = js ''0:05'',
          container = unknown, videoCodec = unknown, audioCodec = unknown\<rparr>"
    by (cases r) simp
  moreover have "includes_str (js ''00:01:00.000'') (js '':'')"
    by (simp add: includes_colon) (simp add: js_def)
  moreover have "formatDuration (JStr (js ''5'')) (Some (js ''00:01:00.000'')) = js ''00:01:00''"
  proof -
    have "js ''00:01:00.000'' \<noteq> []" "0x3A \<in> set (js ''00:01:00.000'')"
      by (simp_all add: js_def)
    then have "formatDuration (JStr (js ''5'')) (Some (js ''00:01:00.000'')) =
        takeWhile (\<lambda>c. c \<noteq> 0x2E) (js ''00:01:00.000'')"
      by (rule formatDuration_usable)
    then show ?thesis
      by (simp add: js_def)
  qed
  moreover have "js ''0:05'' \<noteq> js ''00:01:00''"
    by (simp add: js_def)
  ultimately show ?thesis
    using r by (simp add: videoStr3_fields)
qed

text \<open>
  Claim C3, amended. The preformatted duration is the first present one of the General,
  the Video and the Audio track, whether or not it contains a colon; when it contains a
  colon, the duration field is that string up to its first full stop. Otherwise (also
  when a track of lower priority holds a string with a colon) the raw duration is the
  first present one of the General, the Video and the Audio track, and when none is
  present, the greatest of the positive parsed durations of all tracks of the probe (the
  sentinel results when there is none).
\<close>

theorem duration_source:
  assumes "analyzeVideo fmt f (Returned result) = Inr r"
  shows "let g = findTrack result (js ''General'');
             v = findTrack result (js ''Video'');
             a = findTrack result (js ''Audio'');
             str3 = firstTruthyS [field g Duration_String3, field v Duration_String3,
                                  field a Duration_String3];
             raw = firstTruthyV [field g Duration, field v Duration, field a Duration];
             ds = durationsOf result
         in (\<forall>d. str3 = Some d \<and> 0x3A \<in> set d \<longrightarrow> duration r = takeWhile (\<lambda>c. c \<noteq> 0x2E) d)
          \<and> (\<not> (\<exists>d. str3 = Some d \<and> 0x3A \<in> set d) \<longrightarrow>
               (\<forall>x. raw = Some x \<longrightarrow> duration r = formatDuration x None)
             \<and> (raw = None \<and> ds \<noteq> [] \<longrightarrow>
                  (\<exists>m \<in> set ds. (\<forall>d \<in> set ds. num_le d m)
                     \<and> duration r = formatDuration (JNum m) None))
             \<and> (raw = None \<and> ds = [] \<longrightarrow> duration r = unknown))
          \<and> set ds = {d. \<exists>t \<in> set (tracksOf result).
                           d = parseFloatV (Duration t) \<and> d \<noteq> NaN \<and> js_gt d 0}"
proof -
  define g where "g = findTrack result (js ''General'')"
  define v where "v = findTrack result (js ''Video'')"
  define a where "a = findTrack result (js ''Audio'')"
  define str3 where "str3 = firstTruthyS [field g Duration_String3, field v Duration_String3,
                                  field a Duration_String3]"
  define raw where "raw = firstTruthyV [field g Duration, field v Duration, field a Duration]"
  define ds where "ds = durationsOf result"
  define m where "m = (if length ds > 0 then js_max_list ds else Fin 0)"
  define ds3 where "ds3 = orS (orS (field g Duration_String3) (field v Duration_String3))
              (field a Duration_String3)"
  have dur: "duration r = formatDuration (case raw of Some d \<Rightarrow> d | None \<Rightarrow> JNum m) ds3"
    unfolding duration_field [OF assms] raw_def m_def ds3_def g_def v_def a_def ds_def
    by (simp only: orV_first)
  have us: "usableStr3 ds3 \<longleftrightarrow> (\<exists>d. str3 = Some d \<and> 0x3A \<in> set d)"
    unfolding ds3_def str3_def by (rule orS_usable)
  have 1: "duration r = takeWhile (\<lambda>c. c \<noteq> 0x2E) d" if "str3 = Some d \<and> 0x3A \<in> set d" for d
  proof -
    from that have "ds3 = Some d" "d \<noteq> []"
      unfolding ds3_def str3_def by (auto intro: orS_first dest: firstTruthyS_nonempty)
    with that show ?thesis
      by (simp add: dur formatDuration_usable)
  qed
  have nan: "\<forall>d \<in> set ds. d \<noteq> NaN"
    by (simp add: ds_def durationsOf_set)
  have 2: "(\<forall>x. raw = Some x \<longrightarrow> duration r = formatDuration x None)
             \<and> (raw = None \<and> ds \<noteq> [] \<longrightarrow>
                  (\<exists>m \<in> set ds. (\<forall>d \<in> set ds. num_le d m)
                     \<and> duration r = formatDuration (JNum m) None))
             \<and> (raw = None \<and> ds = [] \<longrightarrow> duration r = unknown)"
    if "\<not> (\<exists>d. str3 = Some d \<and> 0x3A \<in> set d)"
  proof -
    from that us have "\<not> usableStr3 ds3" by simp
    then have d: "duration r = formatDuration (case raw of Some d \<Rightarrow> d | None \<Rightarrow> JNum m) None"
      by (simp add: dur formatDuration_unusable)
    have a: "\<forall>x. raw = Some x \<longrightarrow> duration r = formatDuration x None"
      by (simp add: d)
    have b: "raw = None \<and> ds \<noteq> [] \<longrightarrow>
                  (\<exists>m \<in> set ds. (\<forall>d \<in> set ds. num_le d m)
                     \<and> duration r = formatDuration (JNum m) None)"
    proof
      assume h: "raw = None \<and> ds \<noteq> []"
      then have "m = js_max_list ds" by (simp add: m_def)
      with js_max_list_greatest [of ds] h nan
      have "m \<in> set ds" "\<forall>d \<in> set ds. num_le d m" by simp_all
      moreover have "duration r = formatDuration (JNum m) None"
        using h by (simp add: d)
      ultimately show "\<exists>m \<in> set ds. (\<forall>d \<in> set ds. num_le d m)
                     \<and> duration r = formatDuration (JNum m) None" by blast
    qed
    have c: "raw = None \<and> ds = [] \<longrightarrow> duration r = unknown"
    proof
      assume h: "raw = None \<and> ds = []"
      then have "m = Fin 0" by (simp add: m_def)
      with h show "duration r = unknown"
        by (simp add: d formatDuration_def truthyV_def truthyN_def)
    qed
    from a b c show ?thesis by blast
  qed
  have 3: "set ds = {d. \<exists>t \<in> set (tracksOf result).
                           d = parseFloatV (Duration t) \<and> d \<noteq> NaN \<and> js_gt d 0}"
    unfolding ds_def by (rule durationsOf_set)
  from 1 2 3 show ?thesis
    unfolding Let_def g_def [symmetric] v_def [symmetric] a_def [symmetric]
      str3_def [symmetric] raw_def [symmetric] ds_def [symmetric]
    by blast
qed

theorem duration_source_witness:
  "\<exists>r. analyzeVideo someDate someFile
          (Returned (Some [generalDuration (js ''00:02:15.500'') (js ''135000'')])) = Inr r
       \<and> duration r = js ''00:02:15''"
proof -
  let ?t = "generalDuration (js ''00:02:15.500'') (js ''135000'')"
  let ?res = "Some [?t]"
  have sel: "findTrack ?res (js ''General'') = Some ?t" "findTrack ?res (js ''Video'') = None"
    "findTrack ?res (js ''Audio'') = None"
    using type_literals_distinct by (simp_all add: findTrack_single generalDuration_fields)
  obtain r where r: "analyzeVideo someDate someFile (Returned ?res) = Inr r"
    using analyzeVideo_Inr_ex [of ?res someDate someFile] sel by auto
  have ne: "js ''00:02:15.500'' \<noteq> []" and colon: "0x3A \<in> set (js ''00:02:15.500'')"
    by (simp_all add: js_def)
  have "firstTruthyS [field (findTrack ?res (js ''General'')) Duration_String3,
          field (findTrack ?res (js ''Video'')) Duration_String3,
          field (findTrack ?res (js ''Audio'')) Duration_String3] = Some (js ''00:02:15.500'')"
    using ne by (simp add: sel field_def generalDuration_fields)
  with duration_source [OF r] colon
  have "duration r = takeWhile (\<lambda>c. c \<noteq> 0x2E) (js ''00:02:15.500'')"
    by (simp add: Let_def)
  also have "\<dots> = js ''00:02:15''"
    by (simp add: js_def)
  finally show ?thesis using r by blast
qed

section \<open>Every field is populated\<close>

lemma unknown_nonempty: "unknown \<noteq> []"
  by (simp add: unknown_def)

lemma orElse_nonempty: "d \<noteq> [] \<Longrightarrow> orElse a d \<noteq> []"
  by (simp add: orElse_def split: option.splits)

lemma numToString_nonempty: "numToString x \<noteq> []"
  by (cases x) (simp_all add: numToString_def Let_def digits_nonempty js_def)

lemma formatBytes_nonempty: "formatBytes n 2 \<noteq> []"
  by (simp add: formatBytes_def Let_def js_def)

lemma getResolutionLabel_nonempty: "getResolutionLabel w h \<noteq> []"
  by (simp add: getResolutionLabel_def Let_def js_def)

lemma bitRateText_nonempty: "bitRateText b \<noteq> []"
  by (simp add: bitRateText_def js_def)

lemma getDetailedCodec_nonempty: "getDetailedCodec tr \<noteq> []"
proof (cases tr)
  case None
  then show ?thesis by (simp add: getDetailedCodec_def unknown_nonempty)
next
  case (Some t)
  then show ?thesis
    by (simp add: getDetailedCodec_display orElse_nonempty unknown_nonempty)
qed

lemma formatDuration_None_nonempty: "formatDuration v None \<noteq> []"
  by (simp add: formatDuration_def Let_def unknown_nonempty numToString_nonempty js_def)

lemma takeWhile_nonempty: "d \<noteq> [] \<Longrightarrow> hd d \<noteq> c \<Longrightarrow> takeWhile (\<lambda>x. x \<noteq> c) d \<noteq> []"
  by (cases d) simp_all
lemma duration_cases:
  assumes "analyzeVideo fmt f (Returned result) = Inr r"
  shows "(\<exists>d. firstTruthyS [field (findTrack result (js ''General'')) Duration_String3,
                 field (findTrack result (js ''Video'')) Duration_String3,
                 field (findTrack result (js ''Audio'')) Duration_String3] = Some d
             \<and> d \<noteq> [] \<and> 0x3A \<in> set d \<and> duration r = takeWhile (\<lambda>c. c \<noteq> 0x2E) d)
       \<or> (\<exists>v. duration r = formatDuration v None)"
proof -
  define ds3 where "ds3 =
    orS (orS (field (findTrack result (js ''General'')) Duration_String3)
             (field (findTrack result (js ''Video'')) Duration_String3))
        (field (findTrack result (js ''Audio'')) Duration_String3)"
  from duration_field [OF assms] obtain v where d: "duration r = formatDuration v ds3"
    unfolding ds3_def by blast
  show ?thesis
  proof (cases "usableStr3 ds3")
    case True
    then obtain d where s: "firstTruthyS [field (findTrack result (js ''General'')) Duration_String3,
                 field (findTrack result (js ''Video'')) Duration_String3,
                 field (findTrack result (js ''Audio'')) Duration_String3] = Some d"
      and c: "0x3A \<in> set d"
      unfolding ds3_def orS_usable by blast
    from s have e: "ds3 = Some d" "d \<noteq> []"
      unfolding ds3_def by (auto intro: orS_first dest: firstTruthyS_nonempty)
    with c d have "duration r = takeWhile (\<lambda>c. c \<noteq> 0x2E) d"
      by (simp add: formatDuration_usable)
    with s c e show ?thesis by blast
  next
    case False
    then show ?thesis
      using d by (auto simp: formatDuration_unusable)
  qed
qed

text \<open>
  Claim C2, as stated, fails: for a file without a name and a General track whose
  preformatted duration is \<^verbatim>\<open>".:"\<close>, the analysis succeeds and the name and the duration
  are empty strings.
\<close>

theorem fields_populated_counterexample:
  "analyzeVideo someDate namelessFile (Returned (Some [dotTrack])) =
     Inr \<lparr>name = [], updatedDate = js ''1970/1/1 9:00:00'', size_md = js ''1.5 KB'',
          resolution = unknown, resolutionLabel = unknown, bitRate = unknown,
          bitRateMode = unknown, frameRate = unknown, duration = [], container = unknown,
          videoCodec = unknown, audioCodec = unknown\<rparr>
   \<and> \<not> allFieldsNonEmpty
        \<lparr>name = [], updatedDate = js ''1970/1/1 9:00:00'', size_md = js ''1.5 KB'',
          resolution = unknown, resolutionLabel = unknown, bitRate = unknown,
          bitRateMode = unknown, frameRate = unknown, duration = [], container = unknown,
          videoCodec = unknown, audioCodec = unknown\<rparr>"
proof -
  let ?res = "Some [dotTrack]"
  have ty: "at_type dotTrack = js ''General''"
    by (simp add: dotTrack_def emptyTrack_def)
  have sel: "findTrack ?res (js ''General'') = Some dotTrack"
    "findTrack ?res (js ''Video'') = None" "findTrack ?res (js ''Audio'') = None"
    using type_literals_distinct by (simp_all add: findTrack_single ty)
  obtain r where r: "analyzeVideo someDate namelessFile (Returned ?res) = Inr r"
    using analyzeVideo_Inr_ex [of ?res someDate namelessFile] sel by auto
  have fl: "Format dotTrack = None" "OverallBitRate dotTrack = None"
    "OverallBitRate_Mode dotTrack = None" "Duration dotTrack = None"
    "Duration_String3 dotTrack = Some (js ''.:'')"
    by (simp_all add: dotTrack_def emptyTrack_def)
  have "name r = []"
    by (simp add: name_field [OF r] namelessFile_def)
  moreover have "updatedDate r = js ''1970/1/1 9:00:00''"
    by (simp add: updatedDate_field [OF r] someDate_def)
  moreover have "size_md r = js ''1.5 KB''"
    by (simp add: size_field [OF r] namelessFile_def formatBytes_1536)
  moreover have "resolution r = unknown" "resolutionLabel r = unknown"
    by (simp_all add: resolution_field [OF r] resolutionLabel_field [OF r] sel truthyN_def)
  moreover have "bitRate r = unknown"
    by (simp add: bitRate_field [OF r] sel field_def fl orV_def)
  moreover have "bitRateMode r = unknown"
    by (simp add: bitRateMode_field [OF r] sel field_def fl orS_def orElse_def)
  moreover have "frameRate r = unknown"
    by (simp add: frameRate_field [OF r] sel)
  moreover have "duration r = []"
  proof -
    have ne: "js ''.:'' \<noteq> []" and colon: "0x3A \<in> set (js ''.:'')"
      by (simp_all add: js_def)
    have d3: "orS (orS (field (findTrack ?res (js ''General'')) Duration_String3)
                       (field (findTrack ?res (js ''Video'')) Duration_String3))
                  (field (findTrack ?res (js ''Audio'')) Duration_String3) = Some (js ''.:'')"
      using ne by (simp add: sel field_def fl orS_def)
    have "duration r = takeWhile (\<lambda>c. c \<noteq> 0x2E) (js ''.:'')"
      unfolding duration_field [OF r] d3 by (rule formatDuration_usable [OF ne colon])
    then show ?thesis
      by (simp add: js_def)
  qed
  moreover have "container r = unknown"
    by (simp add: container_field [OF r] sel field_def fl orElse_def)
  moreover have "videoCodec r = unknown" "audioCodec r = unknown"
    by (simp_all add: videoCodec_field [OF r] audioCodec_field [OF r] sel getDetailedCodec_def)
  ultimately have "r = \<lparr>name = [], updatedDate = js ''1970/1/1 9:00:00'', size_md = js ''1.5 KB'',
          resolution = unknown, resolutionLabel = unknown, bitRate = unknown,
          bitRateMode = unknown, frameRate = unknown, duration = [], container = unknown,
          videoCodec = unknown, audioCodec = unknown\<rparr>"
    by (cases r) simp
  with r show ?thesis
    by (simp add: allFieldsNonEmpty_def)
qed

text \<open>
  Claim C2, amended. On success the name is the file's name and the date is the text of
  the runtime's formatter, both passed through unchanged; the size, the resolution, its
  class, the bit rate, its mode, the frame rate, the container and both codecs are never
  empty; the duration is not empty unless the selected preformatted string contains a
  colon and begins with a full stop. So with a named file, a date text that is not empty
  and no such preformatted string, every field is a non-empty string.
\<close>

theorem fields_populated:
  assumes "analyzeVideo fmt f (Returned result) = Inr r"
  shows "name r = file_name f \<and> updatedDate r = fmt (file_lastModified f)
    \<and> size_md r \<noteq> [] \<and> resolution r \<noteq> [] \<and> resolutionLabel r \<noteq> [] \<and> bitRate r \<noteq> []
    \<and> bitRateMode r \<noteq> [] \<and> frameRate r \<noteq> [] \<and> container r \<noteq> [] \<and> videoCodec r \<noteq> []
    \<and> audioCodec r \<noteq> []
    \<and> ((\<forall>d. firstTruthyS [field (findTrack result (js ''General'')) Duration_String3,
                 field (findTrack result (js ''Video'')) Duration_String3,
                 field (findTrack result (js ''Audio'')) Duration_String3] = Some d
             \<and> 0x3A \<in> set d \<longrightarrow> hd d \<noteq> 0x2E)
        \<longrightarrow> duration r \<noteq> []
          \<and> (file_name f \<noteq> [] \<and> fmt (file_lastModified f) \<noteq> [] \<longrightarrow> allFieldsNonEmpty r))"
proof -
  have n: "name r = file_name f" "updatedDate r = fmt (file_lastModified f)"
    by (rule name_field [OF assms], rule updatedDate_field [OF assms])
  have s: "size_md r \<noteq> []"
    by (simp add: size_field [OF assms] formatBytes_nonempty)
  have res: "resolution r \<noteq> []"
    by (simp add: resolution_field [OF assms] Let_def unknown_nonempty numToString_nonempty)
  have lab: "resolutionLabel r \<noteq> []"
    by (simp add: resolutionLabel_field [OF assms] Let_def unknown_nonempty
        getResolutionLabel_nonempty)
  have br: "bitRate r \<noteq> []"
    by (simp add: bitRate_field [OF assms] unknown_nonempty bitRateText_nonempty
        split: option.splits)
  have brm: "bitRateMode r \<noteq> []"
    by (simp add: bitRateMode_field [OF assms] orElse_nonempty unknown_nonempty)
  have fr: "frameRate r \<noteq> []"
    by (simp add: frameRate_field [OF assms] unknown_nonempty js_def split: option.splits)
  have co: "container r \<noteq> []"
    by (simp add: container_field [OF assms] orElse_nonempty unknown_nonempty)
  have vc: "videoCodec r \<noteq> []" "audioCodec r \<noteq> []"
    by (simp_all add: videoCodec_field [OF assms] audioCodec_field [OF assms]
        getDetailedCodec_nonempty)
  have du: "duration r \<noteq> []"
    if "\<forall>d. firstTruthyS [field (findTrack result (js ''General'')) Duration_String3,
                 field (findTrack result (js ''Video'')) Duration_String3,
                 field (findTrack result (js ''Audio'')) Duration_String3] = Some d
             \<and> 0x3A \<in> set d \<longrightarrow> hd d \<noteq> 0x2E"
    using duration_cases [OF assms] that
    by (auto simp: formatDuration_None_nonempty takeWhile_nonempty)
  from n s res lab br brm fr co vc du show ?thesis
    by (simp add: allFieldsNonEmpty_def)
qed

theorem fields_populated_witness:
  "\<exists>r. analyzeVideo someDate someFile
          (Returned (Some [generalDuration (js ''00:02:15.500'') (js ''135000'')])) = Inr r
       \<and> allFieldsNonEmpty r"
proof -
  let ?t = "generalDuration (js ''00:02:15.500'') (js ''135000'')"
  let ?res = "Some [?t]"
  have sel: "findTrack ?res (js ''General'') = Some ?t" "findTrack ?res (js ''Video'') = None"
    "findTrack ?res (js ''Audio'') = None"
    using type_literals_distinct by (simp_all add: findTrack_single generalDuration_fields)
  obtain r where r: "analyzeVideo someDate someFile (Returned ?res) = Inr r"
    using analyzeVideo_Inr_ex [of ?res someDate someFile] sel by auto
  have h: "hd (js ''00:02:15.500'') \<noteq> 0x2E" "js ''00:02:15.500'' \<noteq> []"
    by (simp_all add: js_def)
  have "\<forall>d. firstTruthyS [field (findTrack ?res (js ''General'')) Duration_String3,
          field (findTrack ?res (js ''Video'')) Duration_String3,
          field (findTrack ?res (js ''Audio'')) Duration_String3] = Some d
             \<and> 0x3A \<in> set d \<longrightarrow> hd d \<noteq> 0x2E"
    using h by (simp add: sel field_def generalDuration_fields)
  moreover have "file_name someFile \<noteq> []" "someDate (file_lastModified someFile) \<noteq> []"
    by (simp_all add: someFile_def someDate_def js_def)
  ultimately have "allFieldsNonEmpty r"
    using fields_populated [OF r] by blast
  with r show ?thesis by blast
qed

end
